theory Spec2Isabelle
  imports
    Main
    "HOL-Library.Sublist"
    "HOL-Library.AList"
    "HOL-Library.Multiset"
    "HOL-Library.Product_Lexorder"
    "HOL-Library.Char_ord"
    "HOL-Library.List_Lexorder"
begin

section \<open>Paperbot: the merge / dedup / rank pipeline\<close>

text \<open>
  The development embeds the functions of \<^verbatim>\<open>MultiKeywords_test_v1.py\<close> (and the
  smaller variant of the merge loop in \<^verbatim>\<open>MultiAPI_test_v1.py\<close>) that the digest pipeline
  is built from: \<^verbatim>\<open>score_title\<close>, \<^verbatim>\<open>safe_year_to_int\<close>, \<^verbatim>\<open>merge_and_score\<close>,
  \<^verbatim>\<open>add_abstracts_to_papers\<close> and \<^verbatim>\<open>guess_article_type\<close>.

  Python strings are modelled as \<^typ>\<open>string\<close>: one \<^typ>\<open>char\<close> is one code point of the
  range 0x00 to 0xFF, and \<^verbatim>\<open>str.lower\<close>, \<^verbatim>\<open>str.split\<close>, \<^verbatim>\<open>str.strip\<close> and \<^verbatim>\<open>int\<close> are
  given the behaviour that CPython 3 has on each of these 256 code points.
  \<^verbatim>\<open>None\<close> is \<^const>\<open>None\<close> of an option type.
\<close>

subsection \<open>Python string primitives\<close>

text \<open>\<^verbatim>\<open>a in b\<close> on two strings: \<open>a\<close> occurs in \<open>b\<close> as a contiguous run.\<close>

definition str_in :: "string \<Rightarrow> string \<Rightarrow> bool" where
  "str_in a b = sublist a b"

text \<open>
  \<^verbatim>\<open>str.lower\<close>. Below 0x100 the capital letters are 0x41 to 0x5A (A to Z) and 0xC0 to
  0xDE without the multiplication sign 0xD7; the small letter of each is 0x20 above it.
  Every other code point of the range, the small letters 0xB5, 0xDF and 0xFF included,
  is left as it is.
\<close>

definition lower_char :: "char \<Rightarrow> char" where
  "lower_char c =
     (case map_of (zip
        (''ABCDEFGHIJKLMNOPQRSTUVWXYZ''
         @ [CHR 0xC0, CHR 0xC1, CHR 0xC2, CHR 0xC3, CHR 0xC4, CHR 0xC5, CHR 0xC6, CHR 0xC7,
            CHR 0xC8, CHR 0xC9, CHR 0xCA, CHR 0xCB, CHR 0xCC, CHR 0xCD, CHR 0xCE, CHR 0xCF,
            CHR 0xD0, CHR 0xD1, CHR 0xD2, CHR 0xD3, CHR 0xD4, CHR 0xD5, CHR 0xD6,
            CHR 0xD8, CHR 0xD9, CHR 0xDA, CHR 0xDB, CHR 0xDC, CHR 0xDD, CHR 0xDE])
        (''abcdefghijklmnopqrstuvwxyz''
         @ [CHR 0xE0, CHR 0xE1, CHR 0xE2, CHR 0xE3, CHR 0xE4, CHR 0xE5, CHR 0xE6, CHR 0xE7,
            CHR 0xE8, CHR 0xE9, CHR 0xEA, CHR 0xEB, CHR 0xEC, CHR 0xED, CHR 0xEE, CHR 0xEF,
            CHR 0xF0, CHR 0xF1, CHR 0xF2, CHR 0xF3, CHR 0xF4, CHR 0xF5, CHR 0xF6,
            CHR 0xF8, CHR 0xF9, CHR 0xFA, CHR 0xFB, CHR 0xFC, CHR 0xFD, CHR 0xFE])) c of
        Some d \<Rightarrow> d
      | None \<Rightarrow> c)"

definition lower :: "string \<Rightarrow> string" where
  "lower s = map lower_char s"

text \<open>
  The white space of \<^verbatim>\<open>str.split\<close>, \<^verbatim>\<open>str.strip\<close> and \<^verbatim>\<open>str.isspace\<close>. Below 0x100 it
  is tab, line feed, vertical tab, form feed, carriage return, the four separators 0x1C
  to 0x1F, the space, the next-line control 0x85 and the no-break space 0xA0.
\<close>

definition is_space :: "char \<Rightarrow> bool" where
  "is_space c = (c \<in> set [CHR 0x09, CHR 0x0A, CHR 0x0B, CHR 0x0C, CHR 0x0D,
                          CHR 0x1C, CHR 0x1D, CHR 0x1E, CHR 0x1F, CHR 0x20,
                          CHR 0x85, CHR 0xA0])"

text \<open>
  \<^verbatim>\<open>s.split()\<close> with no argument: runs of whitespace separate the tokens and no
  empty token is produced. \<open>cur\<close> is the token being read.
\<close>

fun split_from :: "string \<Rightarrow> string \<Rightarrow> string list" where
  "split_from cur [] = (if cur = [] then [] else [cur])"
| "split_from cur (c # cs) =
     (if is_space c
      then (if cur = [] then split_from [] cs else cur # split_from [] cs)
      else split_from (cur @ [c]) cs)"

definition split :: "string \<Rightarrow> string list" where
  "split s = split_from [] s"

text \<open>\<^verbatim>\<open>s.strip()\<close>: whitespace is removed at both ends.\<close>

definition strip :: "string \<Rightarrow> string" where
  "strip s = rev (dropWhile is_space (rev (dropWhile is_space s)))"

subsection \<open>The relevance scorer\<close>

text \<open>
  \<^verbatim>\<open>
  def score_title(title: str, query: str) -> int:
      t = (title or "").lower()
      q = query.lower()
      score = 0
      if q in t:
          score += 2
      for w in q.split():
          w = w.strip()
          if w and w in t:
              score += 1
      return score
  \<close>
  The title may be \<^verbatim>\<open>None\<close>; \<^verbatim>\<open>title or ""\<close> also maps the empty string to itself.
  The loop over the tokens is \<open>score_loop\<close>, which threads the running score.
\<close>

definition str_or_empty :: "string option \<Rightarrow> string" where
  "str_or_empty title = (case title of None \<Rightarrow> [] | Some s \<Rightarrow> s)"

fun score_loop :: "string \<Rightarrow> string list \<Rightarrow> nat \<Rightarrow> nat" where
  "score_loop t [] score = score"
| "score_loop t (w0 # ws) score =
     (let w = strip w0
      in score_loop t ws (if w \<noteq> [] \<and> str_in w t then score + 1 else score))"

definition score_title :: "string option \<Rightarrow> string \<Rightarrow> nat" where
  "score_title title query =
     (let t = lower (str_or_empty title);
          q = lower query;
          score = (if str_in q t then 2 else 0)
      in score_loop t (split q) score)"

text \<open>
  A call of \<^verbatim>\<open>score_title\<close> from untyped Python. The title goes through
  \<^verbatim>\<open>title or ""\<close> and may be \<^verbatim>\<open>None\<close>; the query does not, so a query that is
  \<^verbatim>\<open>None\<close> raises \<^verbatim>\<open>AttributeError\<close> at \<^verbatim>\<open>query.lower()\<close>. No other statement of
  the body can raise on strings.
\<close>

datatype py_error = AttributeError

definition score_title_call :: "string option \<Rightarrow> string option \<Rightarrow> py_error + nat" where
  "score_title_call ttl qry =
     (case qry of
        None \<Rightarrow> Inl AttributeError
      | Some q \<Rightarrow> Inr (score_title ttl q))"

text \<open>
  The score as the specification words it: two points when the case-folded query occurs
  in the case-folded title, and one point for each non-empty whitespace-separated token
  of the case-folded query that occurs in the case-folded title.
\<close>

definition score_spec :: "string option \<Rightarrow> string \<Rightarrow> nat" where
  "score_spec ttl q =
     (if str_in (lower q) (lower (str_or_empty ttl)) then 2 else 0)
     + length (filter (\<lambda>w. w \<noteq> [] \<and> str_in w (lower (str_or_empty ttl))) (split (lower q)))"

text \<open>
  \<^verbatim>\<open>int(s)\<close> in base ten. The white space that \<^verbatim>\<open>int\<close> skips at both ends is not that
  of \<^verbatim>\<open>str.strip\<close>: a code point below 0x7F is passed on to the C parser unchanged,
  which skips only tab, line feed, vertical tab, form feed, carriage return and the
  space, so the separators 0x1C to 0x1F are refused; a code point from 0x7F on is first
  replaced by a space when it is Unicode white space (0x85 and 0xA0 below 0x100).
  After the white space one sign may lead, the first character of the number is a digit
  0 to 9, and the digits may be separated by single underscores. By default the
  interpreter also refuses a number written with more than 4300 digits. Anything else
  raises \<^verbatim>\<open>ValueError\<close>, which is \<^const>\<open>None\<close> here.
\<close>

definition is_int_space :: "char \<Rightarrow> bool" where
  "is_int_space c = (c \<in> set [CHR 0x09, CHR 0x0A, CHR 0x0B, CHR 0x0C, CHR 0x0D, CHR 0x20,
                              CHR 0x85, CHR 0xA0])"

definition int_strip :: "string \<Rightarrow> string" where
  "int_strip s = rev (dropWhile is_int_space (rev (dropWhile is_int_space s)))"

definition max_str_digits :: nat where
  "max_str_digits = 4300"

definition digit_val :: "char \<Rightarrow> nat option" where
  "digit_val c = map_of (zip ''0123456789'' [0, 1, 2, 3, 4, 5, 6, 7, 8, 9]) c"

fun int_digits :: "nat \<Rightarrow> string \<Rightarrow> nat option" where
  "int_digits acc [] = Some acc"
| "int_digits acc [c] =
     (case digit_val c of Some v \<Rightarrow> Some (10 * acc + v) | None \<Rightarrow> None)"
| "int_digits acc (c # d # cs) =
     (if c = CHR ''_''
      then (case digit_val d of Some v \<Rightarrow> int_digits (10 * acc + v) cs | None \<Rightarrow> None)
      else (case digit_val c of Some v \<Rightarrow> int_digits (10 * acc + v) (d # cs) | None \<Rightarrow> None))"

definition int_body :: "string \<Rightarrow> nat option" where
  "int_body s =
     (case s of
        [] \<Rightarrow> None
      | c # cs \<Rightarrow>
          if max_str_digits < length (filter (\<lambda>d. digit_val d \<noteq> None) s) then None
          else (case digit_val c of Some v \<Rightarrow> int_digits v cs | None \<Rightarrow> None))"

definition py_int :: "string \<Rightarrow> int option" where
  "py_int s =
     (case int_strip s of
        [] \<Rightarrow> None
      | c # cs \<Rightarrow>
          if c = CHR ''-'' then map_option (\<lambda>n. - int n) (int_body cs)
          else if c = CHR ''+'' then map_option int (int_body cs)
          else map_option int (int_body (c # cs)))"

text \<open>
  \<^verbatim>\<open>
  def safe_year_to_int(year_str: str) -> int:
      try:
          return int(year_str)
      except Exception:
          return 0
  \<close>
\<close>

definition safe_year_to_int :: "string \<Rightarrow> int" where
  "safe_year_to_int year_str = (case py_int year_str of Some n \<Rightarrow> n | None \<Rightarrow> 0)"

subsection \<open>The common record\<close>

text \<open>
  The dictionaries built by \<^verbatim>\<open>fetch_papers_crossref\<close> and \<^verbatim>\<open>fetch_papers_pubmed\<close>.
  The fields that the normalisers always fill with a string are strings; \<^verbatim>\<open>doi\<close>,
  \<^verbatim>\<open>pmid\<close>, \<^verbatim>\<open>abstract\<close>, \<^verbatim>\<open>abstract_ja\<close> and \<^verbatim>\<open>pub_types\<close> may be \<^verbatim>\<open>None\<close>.
\<close>

record paper =
  title :: string
  doi :: "string option"
  url :: string
  authors :: string
  year :: string
  journal :: string
  query :: string
  source :: string
  pmid :: "string option"
  abstract :: "string option"
  abstract_ja :: "string option"
  pub_types :: "string list option"

text \<open>Truth value of an optional string: \<^verbatim>\<open>None\<close> and \<^verbatim>\<open>""\<close> are false.\<close>

definition truthy :: "string option \<Rightarrow> bool" where
  "truthy v = (case v of None \<Rightarrow> False | Some s \<Rightarrow> s \<noteq> [])"

text \<open>\<^verbatim>\<open>x or []\<close> on an optional list.\<close>

definition or_empty :: "'a list option \<Rightarrow> 'a list" where
  "or_empty v = (case v of None \<Rightarrow> [] | Some xs \<Rightarrow> xs)"

text \<open>
  \<^verbatim>\<open>list(dict.fromkeys(xs))\<close>: the keys of an insertion-ordered dictionary that
  received the elements of \<open>xs\<close> one after the other.
\<close>

definition fromkeys :: "'a list \<Rightarrow> 'a list" where
  "fromkeys xs = map fst (fold (\<lambda>k d. AList.update k () d) xs [])"

definition union_types :: "string list \<Rightarrow> string list \<Rightarrow> string list option" where
  "union_types old_types new_types =
     (if old_types \<noteq> [] \<or> new_types \<noteq> []
      then Some (fromkeys (old_types @ new_types))
      else None)"

subsection \<open>Merge and score\<close>

text \<open>
  \<^verbatim>\<open>
  doi = p.get("doi")
  if doi and doi != "(no DOI)":
      key = doi.lower()
  else:
      key = f"{p.get('title','').lower()}_{p.get('year','')}"
  \<close>
\<close>

definition dedup_key :: "paper \<Rightarrow> string" where
  "dedup_key p =
     (if truthy (doi p) \<and> doi p \<noteq> Some ''(no DOI)''
      then lower (str_or_empty (doi p))
      else lower (title p) @ ''_'' @ year p)"

text \<open>
  The body of \<^verbatim>\<open>if key in merged:\<close> in \<^verbatim>\<open>MultiKeywords_test_v1.py\<close>, which updates
  the stored record \<open>existing\<close> from the later record \<open>p\<close>:
  \<^verbatim>\<open>
  if p["source"] not in existing["source"]:
      existing["source"] += "+" + p["source"]
  if not existing.get("pmid") and p.get("pmid"):
      existing["pmid"] = p["pmid"]
  if not existing.get("abstract") and p.get("abstract"):
      existing["abstract"] = p["abstract"]
  old_types = existing.get("pub_types") or []
  new_types = p.get("pub_types") or []
  if old_types or new_types:
      merged_types = list(dict.fromkeys(old_types + new_types))
  else:
      merged_types = None
  existing["pub_types"] = merged_types
  \<close>
\<close>

definition merge_source :: "paper \<Rightarrow> paper \<Rightarrow> paper" where
  "merge_source existing p =
     (if \<not> str_in (source p) (source existing)
      then existing\<lparr>source := source existing @ ''+'' @ source p\<rparr>
      else existing)"

definition merge_existing :: "paper \<Rightarrow> paper \<Rightarrow> paper" where
  "merge_existing existing p =
     (let e1 = merge_source existing p;
          e2 = (if \<not> truthy (pmid e1) \<and> truthy (pmid p) then e1\<lparr>pmid := pmid p\<rparr> else e1);
          e3 = (if \<not> truthy (abstract e2) \<and> truthy (abstract p)
                then e2\<lparr>abstract := abstract p\<rparr> else e2);
          old_types = or_empty (pub_types e3);
          new_types = or_empty (pub_types p)
      in e3\<lparr>pub_types := union_types old_types new_types\<rparr>)"

text \<open>The same body in \<^verbatim>\<open>MultiAPI_test_v1.py\<close> only joins the sources.\<close>

definition merge_existing_api :: "paper \<Rightarrow> paper \<Rightarrow> paper" where
  "merge_existing_api existing p = merge_source existing p"

text \<open>
  The deduplication loop. \<^verbatim>\<open>merged\<close> is an insertion-ordered dictionary, here an
  association list: \<^const>\<open>AList.update\<close> replaces the value of a key in place and appends a
  new key at the end. \<open>f\<close> is the body applied to a key that is already there.
\<close>

fun dedup_loop ::
  "(paper \<Rightarrow> paper \<Rightarrow> paper) \<Rightarrow> (string \<times> paper) list \<Rightarrow> paper list \<Rightarrow> (string \<times> paper) list"
where
  "dedup_loop f merged [] = merged"
| "dedup_loop f merged (p # ps) =
     (let key = dedup_key p
      in dedup_loop f
           (case map_of merged key of
              Some existing \<Rightarrow> AList.update key (f existing p) merged
            | None \<Rightarrow> AList.update key p merged)
           ps)"

text \<open>
  \<^verbatim>\<open>
  for p in merged.values():
      s = score_title(p["title"], query)
      scored_list.append((s, safe_year_to_int(p["year"]), p))
  scored_list.sort(key=lambda x: (-x[0], -x[1]))
  \<close>
  \<^verbatim>\<open>list.sort\<close> is stable; so is \<^const>\<open>sort_key\<close>. Pairs of integers are ordered
  lexicographically, as Python's tuples are.
\<close>

definition scored_list_of :: "string \<Rightarrow> (string \<times> paper) list \<Rightarrow> (nat \<times> int \<times> paper) list" where
  "scored_list_of q merged =
     map (\<lambda>p. (score_title (Some (title p)) q, safe_year_to_int (year p), p)) (map snd merged)"

definition sort_key_of :: "nat \<times> int \<times> paper \<Rightarrow> int \<times> int" where
  "sort_key_of x = (- int (fst x), - fst (snd x))"

definition sort_scored :: "(nat \<times> int \<times> paper) list \<Rightarrow> (nat \<times> int \<times> paper) list" where
  "sort_scored scored_list = sort_key sort_key_of scored_list"

text \<open>
  The slice \<^verbatim>\<open>xs[:n]\<close>: a negative \<open>n\<close> counts from the end of the list.
\<close>

definition slice_to :: "int \<Rightarrow> 'a list \<Rightarrow> 'a list" where
  "slice_to n xs =
     (if 0 \<le> n then take (nat n) xs else take (length xs - nat (- n)) xs)"

definition rank :: "(string \<times> paper) list \<Rightarrow> string \<Rightarrow> int \<Rightarrow> paper list" where
  "rank merged q top_n =
     map (\<lambda>t. snd (snd t)) (slice_to top_n (sort_scored (scored_list_of q merged)))"

definition merge_and_score_with ::
  "(paper \<Rightarrow> paper \<Rightarrow> paper) \<Rightarrow> paper list \<Rightarrow> paper list \<Rightarrow> string \<Rightarrow> int \<Rightarrow> paper list"
where
  "merge_and_score_with f papers_crossref papers_pubmed q top_n =
     (let all_papers = papers_crossref @ papers_pubmed
      in if all_papers = [] then []
         else rank (dedup_loop f [] all_papers) q top_n)"

text \<open>\<^verbatim>\<open>merge_and_score\<close> of \<^verbatim>\<open>MultiKeywords_test_v1.py\<close>.\<close>

definition merge_and_score :: "paper list \<Rightarrow> paper list \<Rightarrow> string \<Rightarrow> int \<Rightarrow> paper list" where
  "merge_and_score = merge_and_score_with merge_existing"

text \<open>\<^verbatim>\<open>merge_and_score\<close> of \<^verbatim>\<open>MultiAPI_test_v1.py\<close>.\<close>

definition merge_and_score_api :: "paper list \<Rightarrow> paper list \<Rightarrow> string \<Rightarrow> int \<Rightarrow> paper list" where
  "merge_and_score_api = merge_and_score_with merge_existing_api"

text \<open>The mapping that the deduplication loop of \<^verbatim>\<open>merge_and_score\<close> leaves in \<^verbatim>\<open>merged\<close>.\<close>

definition merged_of :: "paper list \<Rightarrow> paper list \<Rightarrow> (string \<times> paper) list" where
  "merged_of papers_crossref papers_pubmed =
     dedup_loop merge_existing [] (papers_crossref @ papers_pubmed)"

definition merged_of_api :: "paper list \<Rightarrow> paper list \<Rightarrow> (string \<times> paper) list" where
  "merged_of_api papers_crossref papers_pubmed =
     dedup_loop merge_existing_api [] (papers_crossref @ papers_pubmed)"

subsection \<open>Enrichment with abstracts and publication types\<close>

text \<open>
  One entry of the dictionary returned by \<^verbatim>\<open>fetch_pubmed_abstracts\<close>; both fields are
  read with \<^verbatim>\<open>info.get\<close>, so either may be missing.
\<close>

record info =
  info_abstract :: "string option"
  info_pub_types :: "string list option"

type_synonym info_map = "string \<rightharpoonup> info"

text \<open>
  \<^verbatim>\<open>
  pmids = sorted({
      p["pmid"]
      for p in papers
      if p.get("pmid") and "PubMed" in p.get("source", "")
  })
  \<close>
\<close>

definition requested_pmids :: "paper list \<Rightarrow> string list" where
  "requested_pmids papers =
     sort (remdups (concat (map (\<lambda>p.
       if truthy (pmid p) \<and> str_in ''PubMed'' (source p)
       then [str_or_empty (pmid p)] else []) papers)))"

text \<open>
  \<^verbatim>\<open>fetch_pubmed_abstracts\<close> sends one EFetch request and parses the answer. The
  request and the parser are outside the pipeline: \<open>efetch\<close> stands for both and gives
  \<^const>\<open>None\<close> when the request or the XML parser raises. In both \<^verbatim>\<open>except\<close> branches,
  and for an empty list of ids, the function returns the empty dictionary.
\<close>

definition fetch_pubmed_abstracts :: "(string list \<Rightarrow> info_map option) \<Rightarrow> string list \<Rightarrow> info_map" where
  "fetch_pubmed_abstracts efetch pmids =
     (if pmids = [] then Map.empty
      else (case efetch pmids of None \<Rightarrow> Map.empty | Some info_map \<Rightarrow> info_map))"

text \<open>
  The body of the loop of \<^verbatim>\<open>add_abstracts_to_papers\<close> for one record:
  \<^verbatim>\<open>
  pmid = p.get("pmid")
  if pmid and pmid in info_map:
      info = info_map[pmid]
      q = dict(p)
      abs_text = info.get("abstract")
      if abs_text:
          q["abstract"] = abs_text
      new_types = info.get("pub_types") or []
      old_types = q.get("pub_types") or []
      if new_types or old_types:
          merged_types = list(dict.fromkeys(old_types + new_types))
      else:
          merged_types = None
      q["pub_types"] = merged_types
      updated.append(q)
  else:
      updated.append(p)
  \<close>
\<close>

definition enrich_one :: "info_map \<Rightarrow> paper \<Rightarrow> paper" where
  "enrich_one info_map p =
     (if truthy (pmid p)
      then (case info_map (str_or_empty (pmid p)) of
              Some entry \<Rightarrow>
                (let q1 = (if truthy (info_abstract entry)
                           then p\<lparr>abstract := info_abstract entry\<rparr> else p);
                     new_types = or_empty (info_pub_types entry);
                     old_types = or_empty (pub_types q1)
                 in q1\<lparr>pub_types := union_types old_types new_types\<rparr>)
            | None \<Rightarrow> p)
      else p)"

text \<open>
  \<^verbatim>\<open>add_abstracts_to_papers\<close>, with the function that fetches as a parameter. The
  second component of the result is the list of the calls made to it, each with the ids
  it was given.
\<close>

definition add_abstracts_to_papers ::
  "(string list \<Rightarrow> info_map) \<Rightarrow> paper list \<Rightarrow> paper list \<times> string list list"
where
  "add_abstracts_to_papers fetch papers =
     (let pmids = requested_pmids papers
      in if pmids = [] then (papers, [])
         else (let info_map = fetch pmids
               in (map (enrich_one info_map) papers, [pmids])))"

subsection \<open>The article type\<close>

text \<open>\<^verbatim>\<open>any(pat in pt for pt in pts_lower)\<close>.\<close>

definition any_in :: "string \<Rightarrow> string list \<Rightarrow> bool" where
  "any_in pat pts_lower = list_ex (\<lambda>pt. str_in pat pt) pts_lower"

text \<open>
  \<^verbatim>\<open>guess_article_type\<close>: the chain of \<^verbatim>\<open>if any(...)\<close> tests in the order of the
  source, then the first type, then the placeholder.
\<close>

definition guess_article_type :: "paper \<Rightarrow> string" where
  "guess_article_type p =
     (let types = or_empty (pub_types p);
          pts_lower = map lower types
      in if any_in ''meta-analysis'' pts_lower then ''Meta-analysis''
         else if any_in ''systematic review'' pts_lower then ''Systematic review''
         else if any_in ''review'' pts_lower then ''Review''
         else if any_in ''randomized controlled trial'' pts_lower
           then ''Randomized controlled trial''
         else if any_in ''clinical trial'' pts_lower then ''Clinical trial''
         else if any_in ''case reports'' pts_lower \<or> any_in ''case report'' pts_lower
           then ''Case report''
         else if any_in ''editorial'' pts_lower then ''Editorial''
         else if any_in ''letter'' pts_lower then ''Letter''
         else if any_in ''comment'' pts_lower then ''Comment''
         else (case types of t # _ \<Rightarrow> t | [] \<Rightarrow> ''(unknown)''))"

subsection \<open>Specification-side definitions and sample records\<close>

text \<open>
  The article-type rules as the specification lists them, in priority order: the pattern
  looked for in a case-folded tag, and the label returned.
\<close>

definition type_rules :: "(string \<times> string) list" where
  "type_rules =
     [(''meta-analysis'', ''Meta-analysis''),
      (''systematic review'', ''Systematic review''),
      (''review'', ''Review''),
      (''randomized controlled trial'', ''Randomized controlled trial''),
      (''clinical trial'', ''Clinical trial''),
      (''case report'', ''Case report''),
      (''editorial'', ''Editorial''),
      (''letter'', ''Letter''),
      (''comment'', ''Comment'')]"

text \<open>
  The classifier as the specification words it: the first rule matched by some tag wins;
  without a match the first tag is returned verbatim, and without tags the placeholder.
\<close>

definition classify_spec :: "string list \<Rightarrow> string" where
  "classify_spec tags =
     (case find (\<lambda>rule. list_ex (\<lambda>t. str_in (fst rule) (lower t)) tags) type_rules of
        Some rule \<Rightarrow> snd rule
      | None \<Rightarrow> (case tags of [] \<Rightarrow> ''(unknown)'' | t # _ \<Rightarrow> t))"

text \<open>
  Two records of the shape the normalisers build, one per provider, with the same DOI in
  different letter case, and one answer of the enrichment fetch.
\<close>

definition crossref_example :: paper where
  "crossref_example =
     \<lparr>title = ''Organic electrochemical transistors for sensing'',
      doi = Some ''10.1/x'',
      url = ''https://doi.org/10.1/x'',
      authors = ''(no authors)'',
      year = ''2021'',
      journal = ''(no journal)'',
      query = ''organic electrochemical transistors'',
      source = ''Crossref'',
      pmid = None,
      abstract = None,
      abstract_ja = None,
      pub_types = Some [''journal-article'']\<rparr>"

definition pubmed_example :: paper where
  "pubmed_example =
     \<lparr>title = ''organic electrochemical transistors'',
      doi = Some ''10.1/X'',
      url = ''https://doi.org/10.1/X'',
      authors = ''(no authors)'',
      year = ''2021'',
      journal = ''(no journal)'',
      query = ''organic electrochemical transistors'',
      source = ''PubMed'',
      pmid = Some ''31415926'',
      abstract = None,
      abstract_ja = None,
      pub_types = None\<rparr>"

definition info_example :: info_map where
  "info_example =
     [''31415926'' \<mapsto>
        \<lparr>info_abstract = Some ''(no abstract)'',
         info_pub_types = Some [''Journal Article'', ''Review'']\<rparr>]"

text \<open>
  Three records with three different DOIs for the ranking: against the query
  \<open>organic electrochemical transistors\<close> they score 5, 5 and 3, and their years are 2020,
  2019 and 2023. \<open>merged_example\<close> is the mapping that the deduplication loop builds from
  them when they arrive in the order 2023, 2019, 2020.
\<close>

definition paper_2020 :: paper where
  "paper_2020 = pubmed_example
     \<lparr>title := ''Organic electrochemical transistors'', doi := Some ''10.1/a'', year := ''2020''\<rparr>"

definition paper_2019 :: paper where
  "paper_2019 = crossref_example
     \<lparr>title := ''organic electrochemical transistors revisited'', doi := Some ''10.1/b'',
      year := ''2019''\<rparr>"

definition paper_2023 :: paper where
  "paper_2023 = crossref_example
     \<lparr>title := ''electrochemical organic transistors'', doi := Some ''10.1/c'', year := ''2023''\<rparr>"

definition merged_example :: "(string \<times> paper) list" where
  "merged_example = [(''10.1/c'', paper_2023), (''10.1/b'', paper_2019), (''10.1/a'', paper_2020)]"

text \<open>
  What the two normalisers put into the provider fields of every record they build:
  \<^verbatim>\<open>fetch_papers_crossref\<close> writes \<^verbatim>\<open>"source": "Crossref"\<close> and \<^verbatim>\<open>"pmid": None\<close>,
  \<^verbatim>\<open>fetch_papers_pubmed\<close> writes \<^verbatim>\<open>"source": "PubMed"\<close>.
\<close>

definition from_crossref :: "paper \<Rightarrow> bool" where
  "from_crossref p = (source p = ''Crossref'' \<and> pmid p = None)"

definition from_pubmed :: "paper \<Rightarrow> bool" where
  "from_pubmed p = (source p = ''PubMed'')"

text \<open>
  The relation between the two provider fields that the enrichment relies on: a record
  that carries a PubMed id names PubMed in its source. The normalisers establish it and
  the merge keeps it.
\<close>

definition pmid_ok :: "paper \<Rightarrow> bool" where
  "pmid_ok p = (truthy (pmid p) \<longrightarrow> str_in ''PubMed'' (source p))"

section \<open>Properties\<close>

subsection \<open>Strings and the score\<close>

lemma strip_no_space:
  assumes "\<forall>c\<in>set w. \<not> is_space c"
  shows "strip w = w"
proof -
  have a: "dropWhile is_space w = w" using assms by (cases w) simp_all
  have "\<forall>c\<in>set (rev w). \<not> is_space c" using assms by simp
  then have b: "dropWhile is_space (rev w) = rev w" by (cases "rev w") simp_all
  show ?thesis unfolding strip_def a b by simp
qed

lemma split_from_nonempty: "w \<in> set (split_from cur s) \<Longrightarrow> w \<noteq> []"
  by (induction cur s rule: split_from.induct) (auto split: if_splits)

lemma split_from_no_space:
  "w \<in> set (split_from cur s) \<Longrightarrow> \<forall>c\<in>set cur. \<not> is_space c \<Longrightarrow> c \<in> set w \<Longrightarrow> \<not> is_space c"
  by (induction cur s rule: split_from.induct) (auto split: if_splits)

lemma sublist_tail: "sublist w cs \<Longrightarrow> sublist w (cur @ c # cs)"
  by (metis append_Cons append_Nil append_assoc sublist_append_leftI sublist_order.order.trans)

lemma split_from_sublist: "w \<in> set (split_from cur s) \<Longrightarrow> sublist w (cur @ s)"
proof (induction cur s rule: split_from.induct)
  case (1 cur)
  then show ?case by (cases "cur = []") simp_all
next
  case (2 cur c cs)
  show ?case
  proof (cases "is_space c")
    case sp: True
    show ?thesis
    proof (cases "cur = []")
      case True
      with 2(1)[OF sp True] 2(4) sp have "sublist w cs" by simp
      then show ?thesis by (rule sublist_tail)
    next
      case False
      with 2(4) sp have "w = cur \<or> w \<in> set (split_from [] cs)" by simp
      then show ?thesis
      proof
        assume "w = cur" then show ?thesis by simp
      next
        assume "w \<in> set (split_from [] cs)"
        with 2(2)[OF sp False] have "sublist w cs" by simp
        then show ?thesis by (rule sublist_tail)
      qed
    qed
  next
    case False
    with 2 show ?thesis by simp
  qed
qed

lemma split_tokens:
  assumes "w \<in> set (split s)"
  shows "w \<noteq> []" and "strip w = w" and "str_in w s"
proof -
  from assms have m: "w \<in> set (split_from [] s)" by (simp add: split_def)
  show "w \<noteq> []" using m by (rule split_from_nonempty)
  have "\<forall>c\<in>set w. \<not> is_space c"
    using split_from_no_space[OF m] by simp
  then show "strip w = w" by (rule strip_no_space)
  show "str_in w s" using split_from_sublist[OF m] by (simp add: str_in_def)
qed

lemma score_loop_count:
  "score_loop t ws n = n + length (filter (\<lambda>w. strip w \<noteq> [] \<and> str_in (strip w) t) ws)"
  by (induction ws arbitrary: n) (simp_all add: Let_def)

lemma score_title_spec: "score_title ttl q = score_spec ttl q"
proof -
  have "filter (\<lambda>w. strip w \<noteq> [] \<and> str_in (strip w) t) (split s)
      = filter (\<lambda>w. w \<noteq> [] \<and> str_in w t) (split s)" for t s
    by (rule filter_cong) (simp_all add: split_tokens(2))
  then show ?thesis
    unfolding score_title_def score_spec_def Let_def score_loop_count by simp
qed

lemma score_self:
  "score_title (Some q) q = 2 + length (split (lower q))"
proof -
  have "filter (\<lambda>w. w \<noteq> [] \<and> str_in w (lower q)) (split (lower q)) = split (lower q)"
    unfolding filter_id_conv using split_tokens(1,3) by blast
  moreover have "str_in (lower q) (lower q)" by (simp add: str_in_def)
  ultimately show ?thesis
    unfolding score_title_spec score_spec_def str_or_empty_def by simp
qed

lemma str_in_Nil: "str_in a [] \<longleftrightarrow> a = []"
  by (simp add: str_in_def)

lemma lower_Nil: "lower q = [] \<longleftrightarrow> q = []"
  by (simp add: lower_def)

lemma split_Nil: "split [] = []"
  by (simp add: split_def)

lemma score_None: "score_title None q = (if q = [] then 2 else 0)"
proof -
  have f: "filter (\<lambda>w. w \<noteq> [] \<and> str_in w []) ws = []" for ws
    by (induction ws) (simp_all add: str_in_Nil)
  have "score_title None q = (if lower q = [] then 2 else 0)"
    unfolding score_title_spec score_spec_def str_or_empty_def
    by (simp add: f str_in_Nil lower_Nil[of "[]", simplified])
  then show ?thesis by (simp add: lower_Nil)
qed

lemma score_empty_query: "score_title ttl [] = 2"
  unfolding score_title_spec score_spec_def
  by (simp add: lower_def split_Nil str_in_def)

text \<open>
  Claim C2. For every title and query, \<^verbatim>\<open>score_title\<close> returns 2 if the case-folded
  query occurs as a contiguous substring of the case-folded title (else 0), plus the
  number of non-empty whitespace-separated tokens of the case-folded query that occur as
  substrings of the case-folded title. In particular a title equal to a query of three
  tokens scores 2 + 3 = 5.
\<close>

theorem C2_score_is_phrase_plus_tokens:
  "score_title ttl q = score_spec ttl q
   \<and> (length (split (lower q)) = 3 \<longrightarrow> score_title (Some q) q = 5)"
proof
  show "score_title ttl q = score_spec ttl q" by (rule score_title_spec)
  show "length (split (lower q)) = 3 \<longrightarrow> score_title (Some q) q = 5"
    by (simp add: score_self)
qed

theorem C2_score_witness:
  "length (split (lower ''organic electrochemical transistors'')) = 3
   \<and> score_title (Some ''organic electrochemical transistors'')
        ''organic electrochemical transistors'' = 5"
proof -
  have three: "length (split (lower ''organic electrochemical transistors'')) = 3"
    by (simp add: split_def lower_def lower_char_def is_space_def)
  with C2_score_is_phrase_plus_tokens
    [of "Some ''organic electrochemical transistors''" "''organic electrochemical transistors''"]
  show ?thesis by blast
qed

text \<open>
  Claim C9. \<^verbatim>\<open>score_title\<close> never raises for any title, a missing title included, and
  any string query. With a missing title the score is 0 for every non-empty query, and
  differs from 0 (it is 2) only when the query is empty as well.
\<close>

theorem C9_score_never_raises:
  "(\<exists>n. score_title_call ttl (Some q) = Inr n)
   \<and> score_title_call None (Some q) = Inr (if q = [] then 2 else 0)"
  by (simp add: score_title_call_def score_None)

theorem C9_score_witness:
  "score_title_call None (Some ''oect'') = Inr 0 \<and> score_title_call None (Some []) = Inr 2"
  using C9_score_never_raises [of None "''oect''"] C9_score_never_raises [of None "[]"]
  by simp

subsection \<open>The article type\<close>

lemma case_reports_report: "str_in ''case reports'' t \<Longrightarrow> str_in ''case report'' t"
proof -
  have "sublist ''case report'' (''case report'' @ ''s'')" by (rule sublist_append_rightI)
  then have "sublist ''case report'' ''case reports''" by simp
  then show "str_in ''case reports'' t \<Longrightarrow> str_in ''case report'' t"
    unfolding str_in_def by (rule sublist_order.order.trans)
qed

lemma any_in_case_reports: "any_in ''case reports'' ts \<Longrightarrow> any_in ''case report'' ts"
  unfolding any_in_def list_ex_iff using case_reports_report by blast

lemma any_in_map_lower: "any_in pat (map lower ts) = list_ex (\<lambda>t. str_in pat (lower t)) ts"
  by (simp add: any_in_def list_ex_iff)

lemma guess_is_classify: "guess_article_type p = classify_spec (or_empty (pub_types p))"
proof -
  have cr: "(any_in ''case reports'' (map lower ts) \<or> any_in ''case report'' (map lower ts))
            = any_in ''case report'' (map lower ts)" for ts
    using any_in_case_reports by blast
  show ?thesis
    unfolding guess_article_type_def Let_def cr
    unfolding any_in_map_lower classify_spec_def type_rules_def
    by simp
qed

lemma guess_systematic:
  "pub_types p = Some [''Systematic Review''] \<Longrightarrow> guess_article_type p = ''Systematic review''"
  by (simp add: guess_article_type_def or_empty_def any_in_def lower_def lower_char_def
        str_in_def sublist_code prefix_code)

text \<open>
  Claim C7. The article type is a function of the record's tag list alone. It applies
  case-insensitive substring rules in the priority order meta-analysis, systematic review,
  review, randomized controlled trial, clinical trial, case report, editorial, letter,
  comment, and returns the label of the first rule that matches; without a match it
  returns the first tag verbatim, and without tags \<open>(unknown)\<close>. A record tagged only
  \<open>Systematic Review\<close> is a \<open>Systematic review\<close>, not a \<open>Review\<close>.
\<close>

theorem C7_article_type:
  "guess_article_type p = classify_spec (or_empty (pub_types p))
   \<and> (pub_types p = pub_types p' \<longrightarrow> guess_article_type p = guess_article_type p')
   \<and> (pub_types p = Some [''Systematic Review''] \<longrightarrow> guess_article_type p = ''Systematic review'')"
  by (simp add: guess_is_classify[symmetric] guess_systematic) (simp add: guess_is_classify)

theorem C7_article_type_witness:
  "guess_article_type (crossref_example\<lparr>pub_types := Some [''Systematic Review'']\<rparr>)
     = ''Systematic review''
   \<and> guess_article_type (pubmed_example\<lparr>pub_types := Some [''Systematic Review'']\<rparr>)
     = ''Systematic review''"
proof -
  let ?p = "crossref_example\<lparr>pub_types := Some [''Systematic Review'']\<rparr>"
  let ?p' = "pubmed_example\<lparr>pub_types := Some [''Systematic Review'']\<rparr>"
  have a: "pub_types ?p = Some [''Systematic Review'']" by simp
  have b: "pub_types ?p = pub_types ?p'" by simp
  from C7_article_type [of ?p ?p'] a b show ?thesis by metis
qed

subsection \<open>Union of publication types\<close>

lemma keys_update:
  "map fst (AList.update k v d) = (if k \<in> set (map fst d) then map fst d else map fst d @ [k])"
  by (simp add: update_keys)

lemma keys_fold_update:
  "map fst (fold (\<lambda>k d. AList.update k () d) xs d)
   = fold (\<lambda>k ks. if k \<in> set ks then ks else ks @ [k]) xs (map fst d)"
proof (induction xs arbitrary: d)
  case Nil
  show ?case by simp
next
  case (Cons x xs)
  show ?case by (simp add: Cons.IH keys_update del: set_map)
qed

lemma fromkeys_fold:
  "fromkeys xs = fold (\<lambda>k ks. if k \<in> set ks then ks else ks @ [k]) xs []"
  using keys_fold_update[of xs "[]"] by (simp add: fromkeys_def)

lemma fold_seen_split:
  "fold (\<lambda>k ks. if k \<in> set ks then ks else ks @ [k]) (xs :: 'a list) ks
   = ks @ fold (\<lambda>k ks. if k \<in> set ks then ks else ks @ [k]) (filter (\<lambda>x. x \<notin> set ks) xs) []"
proof (induction xs arbitrary: ks rule: length_induct)
  case (1 xs)
  let ?F = "fold (\<lambda>k ks. if k \<in> set ks then ks else ks @ [k])"
  show ?case
  proof (cases xs)
    case Nil
    then show ?thesis by simp
  next
    case (Cons x ys)
    have ih: "?F zs ks = ks @ ?F (filter (\<lambda>x. x \<notin> set ks) zs) []"
      if "length zs \<le> length ys" for zs ks :: "'a list"
    proof -
      from that Cons have "length zs < length xs" by simp
      with 1 show ?thesis by blast
    qed
    show ?thesis
    proof (cases "x \<in> set ks")
      case True
      then show ?thesis using Cons ih[of ys ks] by simp
    next
      case False
      have a: "?F xs ks = (ks @ [x]) @ ?F (filter (\<lambda>y. y \<notin> set (ks @ [x])) ys) []"
        using Cons False ih[of ys "ks @ [x]"] by simp
      have "?F (filter (\<lambda>y. y \<notin> set ks) xs) [] = ?F (filter (\<lambda>y. y \<notin> set ks) ys) [x]"
        using Cons False by simp
      also have "\<dots> = [x] @ ?F (filter (\<lambda>y. y \<notin> set [x]) (filter (\<lambda>y. y \<notin> set ks) ys)) []"
        by (rule ih) simp
      also have "filter (\<lambda>y. y \<notin> set [x]) (filter (\<lambda>y. y \<notin> set ks) ys)
               = filter (\<lambda>y. y \<notin> set (ks @ [x])) ys"
        by (simp add: conj_commute)
      finally show ?thesis using a by simp
    qed
  qed
qed

lemma fromkeys_append:
  "fromkeys (xs @ ys) = fromkeys xs @ fromkeys (filter (\<lambda>y. y \<notin> set (fromkeys xs)) ys)"
  unfolding fromkeys_fold fold_append comp_def
  by (rule fold_seen_split)

lemma set_fold_seen:
  "set (fold (\<lambda>k ks. if k \<in> set ks then ks else ks @ [k]) xs ks) = set ks \<union> set xs"
  by (induction xs arbitrary: ks) auto

lemma distinct_fold_seen:
  "distinct ks \<Longrightarrow> distinct (fold (\<lambda>k ks. if k \<in> set ks then ks else ks @ [k]) xs ks)"
  by (induction xs arbitrary: ks) auto

lemma set_fromkeys: "set (fromkeys xs) = set xs"
  by (simp add: fromkeys_fold set_fold_seen)

lemma distinct_fromkeys: "distinct (fromkeys xs)"
  by (simp add: fromkeys_fold distinct_fold_seen)

lemma fold_seen_distinct:
  "distinct xs \<Longrightarrow>
   fold (\<lambda>k ks. if k \<in> set ks then ks else ks @ [k]) xs ks = ks @ filter (\<lambda>x. x \<notin> set ks) xs"
proof (induction xs arbitrary: ks)
  case Nil
  show ?case by simp
next
  case (Cons x xs)
  then have "filter (\<lambda>y. y \<noteq> x \<and> y \<notin> set ks) xs = filter (\<lambda>y. y \<notin> set ks) xs"
    by (intro filter_cong) auto
  with Cons show ?case by (simp add: conj_commute)
qed

lemma fromkeys_distinct: "distinct xs \<Longrightarrow> fromkeys xs = xs"
  by (simp add: fromkeys_fold fold_seen_distinct)

lemma fromkeys_union:
  "fromkeys (old @ new) = fromkeys old @ fromkeys (filter (\<lambda>y. y \<notin> set old) new)"
  using fromkeys_append[of old new] by (simp add: set_fromkeys)

lemma fromkeys_Cons: "fromkeys (x # xs) = x # fromkeys (filter (\<lambda>y. y \<noteq> x) xs)"
  using fromkeys_union[of "[x]" xs] by (simp add: fromkeys_distinct)

lemma pub_types_merge_existing:
  "pub_types (merge_existing existing p)
   = union_types (or_empty (pub_types existing)) (or_empty (pub_types p))"
  by (simp add: merge_existing_def merge_source_def Let_def)

lemma pub_types_enrich_one:
  "truthy (pmid p) \<Longrightarrow> info_map (str_or_empty (pmid p)) = Some entry \<Longrightarrow>
   pub_types (enrich_one info_map p)
   = union_types (or_empty (pub_types p)) (or_empty (info_pub_types entry))"
  by (simp add: enrich_one_def Let_def)

lemma union_types_Some:
  "old \<noteq> [] \<or> new \<noteq> [] \<Longrightarrow>
   \<exists>ts. union_types old new = Some ts \<and> distinct ts \<and> set ts = set old \<union> set new
        \<and> ts = fromkeys old @ fromkeys (filter (\<lambda>x. x \<notin> set old) new)"
  unfolding union_types_def
  using fromkeys_union[of old new] distinct_fromkeys[of "old @ new"] set_fromkeys[of "old @ new"]
  by simp

lemma fromkeys_Nil: "fromkeys [] = []"
  by (simp add: fromkeys_def)

text \<open>
  Claim C8. After the merge of two duplicate records, and after the union made while
  enriching, the list \<^verbatim>\<open>pub_types\<close> has no duplicates and keeps first-seen order: the
  tags of the earlier record first, then the later tags not already there. \<^verbatim>\<open>None\<close>
  operands count as empty, and the result is \<^verbatim>\<open>None\<close> when both operands are empty.
  \<open>fromkeys\<close> keeps the first occurrence of every element.
\<close>

theorem C8_pub_types_union:
  "pub_types (merge_existing existing p)
     = union_types (or_empty (pub_types existing)) (or_empty (pub_types p))
   \<and> (truthy (pmid p) \<and> info_map (str_or_empty (pmid p)) = Some entry \<longrightarrow>
        pub_types (enrich_one info_map p)
        = union_types (or_empty (pub_types p)) (or_empty (info_pub_types entry)))
   \<and> union_types [] [] = None
   \<and> (old \<noteq> [] \<or> new \<noteq> [] \<longrightarrow>
        (\<exists>ts. union_types old new = Some ts \<and> distinct ts \<and> set ts = set old \<union> set new
           \<and> ts = fromkeys old @ fromkeys (filter (\<lambda>x. x \<notin> set old) new)))
   \<and> (distinct old \<longrightarrow> fromkeys old = old)
   \<and> fromkeys [] = ([] :: string list)
   \<and> fromkeys (x # xs) = x # fromkeys (filter (\<lambda>y. y \<noteq> x) xs)"
proof (intro conjI impI)
  show "pub_types (merge_existing existing p)
     = union_types (or_empty (pub_types existing)) (or_empty (pub_types p))"
    by (rule pub_types_merge_existing)
  show "pub_types (enrich_one info_map p)
        = union_types (or_empty (pub_types p)) (or_empty (info_pub_types entry))"
    if "truthy (pmid p) \<and> info_map (str_or_empty (pmid p)) = Some entry"
    using that pub_types_enrich_one by blast
  show "union_types [] [] = None" by (simp add: union_types_def)
  show "\<exists>ts. union_types old new = Some ts \<and> distinct ts \<and> set ts = set old \<union> set new
           \<and> ts = fromkeys old @ fromkeys (filter (\<lambda>x. x \<notin> set old) new)"
    if "old \<noteq> [] \<or> new \<noteq> []"
    using that by (rule union_types_Some)
  show "fromkeys old = old" if "distinct old" using that by (rule fromkeys_distinct)
  show "fromkeys [] = ([] :: string list)" by (rule fromkeys_Nil)
  show "fromkeys (x # xs) = x # fromkeys (filter (\<lambda>y. y \<noteq> x) xs)" by (rule fromkeys_Cons)
qed

theorem C8_pub_types_union_witness:
  "pub_types (merge_existing crossref_example
                (pubmed_example\<lparr>pub_types := Some [''Review'', ''journal-article'']\<rparr>))
     = Some [''journal-article'', ''Review'']
   \<and> pub_types (enrich_one info_example
                  (pubmed_example\<lparr>pub_types := Some [''Review'']\<rparr>))
     = Some [''Review'', ''Journal Article'']
   \<and> distinct [''journal-article'', ''Review'']
   \<and> fromkeys [''journal-article'', ''Review''] = [''journal-article'', ''Review'']"
proof -
  let ?p = "pubmed_example\<lparr>pub_types := Some [''Review'', ''journal-article'']\<rparr>"
  let ?r = "pubmed_example\<lparr>pub_types := Some [''Review'']\<rparr>"
  let ?e = "\<lparr>info_abstract = Some ''(no abstract)'',
             info_pub_types = Some [''Journal Article'', ''Review'']\<rparr>"
  have u1: "union_types [''journal-article''] [''Review'', ''journal-article'']
            = Some [''journal-article'', ''Review'']"
    by (simp add: union_types_def fromkeys_def)
  have u2: "union_types [''Review''] [''Journal Article'', ''Review'']
            = Some [''Review'', ''Journal Article'']"
    by (simp add: union_types_def fromkeys_def)
  have d: "distinct [''journal-article'', ''Review'']" by simp
  have h: "truthy (pmid ?r) \<and> info_example (str_or_empty (pmid ?r)) = Some ?e"
    by (simp add: pubmed_example_def truthy_def info_example_def str_or_empty_def)
  note T1 = C8_pub_types_union
    [of crossref_example ?p info_example ?e "[''journal-article'', ''Review'']" "[]" "CHR ''a''" "[]"]
  note T2 = C8_pub_types_union
    [of ?r ?r info_example ?e "[''journal-article'', ''Review'']" "[]" "CHR ''a''" "[]"]
  from T1 have "pub_types (merge_existing crossref_example ?p)
      = union_types (or_empty (pub_types crossref_example)) (or_empty (pub_types ?p))"
    by blast
  then have a: "pub_types (merge_existing crossref_example ?p) = Some [''journal-article'', ''Review'']"
    by (simp add: u1 crossref_example_def or_empty_def)
  from T2 h have "pub_types (enrich_one info_example ?r)
      = union_types (or_empty (pub_types ?r)) (or_empty (info_pub_types ?e))"
    by blast
  then have b: "pub_types (enrich_one info_example ?r) = Some [''Review'', ''Journal Article'']"
    by (simp add: u2 or_empty_def)
  from T1 d have c: "fromkeys [''journal-article'', ''Review''] = [''journal-article'', ''Review'']"
    by blast
  from a b c d show ?thesis by blast
qed

subsection \<open>Ranking\<close>

lemma map_slice_to: "map f (slice_to n xs) = slice_to n (map f xs)"
  by (simp add: slice_to_def take_map)

lemma length_slice_to:
  "length (slice_to n xs) = (if 0 \<le> n then min (nat n) (length xs) else length xs - nat (- n))"
  by (cases "0 \<le> n") (simp_all add: slice_to_def)

lemma slice_to_zero: "slice_to 0 xs = []"
  by (simp add: slice_to_def)

lemma slice_to_all: "int (length xs) \<le> n \<Longrightarrow> slice_to n xs = xs"
  by (simp add: slice_to_def)

lemma insort_key_map:
  "insort_key k (g a) (map g xs) = map g (insort_key (\<lambda>x. k (g x)) a xs)"
  by (induction xs) simp_all

lemma sort_key_map:
  "sort_key k (map g xs) = map g (sort_key (\<lambda>x. k (g x)) xs)"
  by (induction xs) (simp_all add: insort_key_map)

lemma insort_key_const_fst:
  "insort_key (\<lambda>x. (c, h x)) a xs = insort_key h a xs"
  by (induction xs) simp_all

lemma sort_key_const_fst:
  "sort_key (\<lambda>x. (c, h x)) xs = sort_key h xs"
  by (induction xs) (simp_all add: insort_key_const_fst)

lemma length_scored_list_of: "length (scored_list_of q merged) = length merged"
  by (simp add: scored_list_of_def)

lemma length_sort_scored: "length (sort_scored sl) = length sl"
  by (simp add: sort_scored_def)

lemma mset_sort_scored: "mset (sort_scored sl) = mset sl"
  by (simp add: sort_scored_def)

lemma papers_scored_list_of: "map (\<lambda>t. snd (snd t)) (scored_list_of q merged) = map snd merged"
  by (simp add: scored_list_of_def comp_def)

lemma length_rank:
  "length (rank merged q top_n)
   = (if 0 \<le> top_n then min (nat top_n) (length merged) else length merged - nat (- top_n))"
  by (simp add: rank_def length_slice_to length_sort_scored length_scored_list_of)

lemma rank_all:
  assumes "int (length merged) \<le> top_n"
  shows "mset (rank merged q top_n) = mset (map snd merged)"
proof -
  have "slice_to top_n (sort_scored (scored_list_of q merged)) = sort_scored (scored_list_of q merged)"
    using assms by (simp add: slice_to_all length_sort_scored length_scored_list_of)
  then have "mset (rank merged q top_n)
      = image_mset (\<lambda>t. snd (snd t)) (mset (sort_scored (scored_list_of q merged)))"
    by (simp add: rank_def)
  also have "\<dots> = mset (map (\<lambda>t. snd (snd t)) (scored_list_of q merged))"
    by (simp add: mset_sort_scored)
  finally show ?thesis by (simp add: papers_scored_list_of)
qed

lemma rank_empty_query:
  "rank merged [] top_n
   = slice_to top_n (sort_key (\<lambda>p. - safe_year_to_int (year p)) (map snd merged))"
proof -
  let ?g = "\<lambda>p. (score_title (Some (title p)) [], safe_year_to_int (year p), p)"
  have "sort_scored (scored_list_of [] merged)
      = map ?g (sort_key (\<lambda>p. sort_key_of (?g p)) (map snd merged))"
    by (simp add: sort_scored_def scored_list_of_def sort_key_map)
  also have "(\<lambda>p. sort_key_of (?g p)) = (\<lambda>p. (- 2 :: int, - safe_year_to_int (year p)))"
    by (simp add: sort_key_of_def score_empty_query)
  also have "sort_key \<dots> (map snd merged)
      = sort_key (\<lambda>p. - safe_year_to_int (year p)) (map snd merged)"
    by (rule sort_key_const_fst)
  finally have "map (\<lambda>t. snd (snd t)) (sort_scored (scored_list_of [] merged))
      = sort_key (\<lambda>p. - safe_year_to_int (year p)) (map snd merged)"
    by (simp add: comp_def)
  then show ?thesis by (simp add: rank_def map_slice_to)
qed

lemma sorted_sort_scored: "sorted (map sort_key_of (sort_scored sl))"
  by (simp add: sort_scored_def)

lemma stable_sort_scored:
  "filter (\<lambda>x. sort_key_of x = k) (sort_scored sl) = filter (\<lambda>x. sort_key_of x = k) sl"
  by (simp add: sort_scored_def sort_key_stable)

lemma sort_key_of_le:
  "sort_key_of x \<le> sort_key_of y \<longleftrightarrow>
     fst y < fst x \<or> (fst x = fst y \<and> fst (snd y) \<le> fst (snd x))"
  by (auto simp add: sort_key_of_def)

lemma sort_scored_order:
  assumes "i < j" "j < length (sort_scored sl)"
  shows "fst (sort_scored sl ! j) < fst (sort_scored sl ! i)
         \<or> (fst (sort_scored sl ! i) = fst (sort_scored sl ! j)
            \<and> fst (snd (sort_scored sl ! j)) \<le> fst (snd (sort_scored sl ! i)))"
proof -
  have "map sort_key_of (sort_scored sl) ! i \<le> map sort_key_of (sort_scored sl) ! j"
    using sorted_sort_scored[of sl] assms by (simp add: sorted_iff_nth_mono_less)
  then have "sort_key_of (sort_scored sl ! i) \<le> sort_key_of (sort_scored sl ! j)"
    using assms by simp
  then show ?thesis by (simp only: sort_key_of_le)
qed

lemma safe_year_nd: "safe_year_to_int ''(n.d.)'' = 0"
  by (simp add: safe_year_to_int_def py_int_def int_strip_def is_int_space_def max_str_digits_def int_body_def digit_val_def)

lemma safe_year_2020: "safe_year_to_int ''2020'' = 2020"
  by (simp add: safe_year_to_int_def py_int_def int_strip_def is_int_space_def max_str_digits_def int_body_def digit_val_def)

lemmas string_eval = lower_def lower_char_def split_def is_space_def strip_def str_in_def
  sublist_code prefix_code str_or_empty_def

lemma score_paper_2020:
  "score_title (Some (title paper_2020)) ''organic electrochemical transistors'' = 5"
  by (simp add: paper_2020_def pubmed_example_def score_title_def string_eval)

lemma score_paper_2019:
  "score_title (Some (title paper_2019)) ''organic electrochemical transistors'' = 5"
  by (simp add: paper_2019_def crossref_example_def score_title_def string_eval)

lemma score_paper_2023:
  "score_title (Some (title paper_2023)) ''organic electrochemical transistors'' = 3"
  by (simp add: paper_2023_def crossref_example_def score_title_def string_eval)

lemmas int_eval = safe_year_to_int_def py_int_def int_strip_def is_int_space_def max_str_digits_def int_body_def digit_val_def

lemma year_paper_2020: "safe_year_to_int (year paper_2020) = 2020"
  by (simp add: paper_2020_def pubmed_example_def int_eval)

lemma year_paper_2019: "safe_year_to_int (year paper_2019) = 2019"
  by (simp add: paper_2019_def crossref_example_def int_eval)

lemma year_paper_2023: "safe_year_to_int (year paper_2023) = 2023"
  by (simp add: paper_2023_def crossref_example_def int_eval)

lemma sorted_example:
  "sort_scored (scored_list_of ''organic electrochemical transistors'' merged_example)
   = [(5, 2020, paper_2020), (5, 2019, paper_2019), (3, 2023, paper_2023)]"
  by (simp add: sort_scored_def scored_list_of_def merged_example_def sort_key_of_def
        score_paper_2020 score_paper_2019 score_paper_2023
        year_paper_2020 year_paper_2019 year_paper_2023)

lemma rank_example_2:
  "rank merged_example ''organic electrochemical transistors'' 2 = [paper_2020, paper_2019]"
  by (simp add: rank_def sorted_example slice_to_def)

lemma rank_example_neg:
  "rank merged_example ''organic electrochemical transistors'' (- 1) = [paper_2020, paper_2019]"
  by (simp add: rank_def sorted_example slice_to_def)

lemma dedup_example:
  "dedup_loop f [] ([paper_2023, paper_2019] @ [paper_2020]) = merged_example"
  by (simp add: Let_def merged_example_def dedup_key_def truthy_def paper_2023_def paper_2019_def
        paper_2020_def crossref_example_def pubmed_example_def string_eval)

lemma merge_and_score_example_neg:
  "merge_and_score [paper_2023, paper_2019] [paper_2020]
     ''organic electrochemical transistors'' (- 1) = [paper_2020, paper_2019]"
  unfolding merge_and_score_def merge_and_score_with_def Let_def dedup_example
  by (simp add: rank_example_neg)

text \<open>
  Claim C3. The ranking sorts the scored records by score descending, then by year
  descending. The year used for sorting is \<^verbatim>\<open>safe_year_to_int\<close> of the stored string,
  which is 0 for a string that does not parse as an integer, the placeholder \<open>(n.d.)\<close>
  included; the stored records, and so their year strings, are the ones of the mapping.
  The sort is stable: records with equal sort keys keep the order of the mapping. With
  \<open>top_n = 2\<close> and three candidates of scores 5, 5, 3 and years 2020, 2019, 2023 the
  result is the record of 2020, then the record of 2019.
\<close>

theorem C3_rank_order:
  "rank merged q top_n
     = map (\<lambda>t. snd (snd t)) (slice_to top_n (sort_scored (scored_list_of q merged)))
   \<and> scored_list_of q merged
     = map (\<lambda>p. (score_title (Some (title p)) q, safe_year_to_int (year p), p)) (map snd merged)
   \<and> mset (sort_scored (scored_list_of q merged)) = mset (scored_list_of q merged)
   \<and> (\<forall>i j. i < j \<and> j < length merged \<longrightarrow>
         fst (sort_scored (scored_list_of q merged) ! j)
           < fst (sort_scored (scored_list_of q merged) ! i)
         \<or> (fst (sort_scored (scored_list_of q merged) ! i)
              = fst (sort_scored (scored_list_of q merged) ! j)
            \<and> fst (snd (sort_scored (scored_list_of q merged) ! j))
              \<le> fst (snd (sort_scored (scored_list_of q merged) ! i))))
   \<and> filter (\<lambda>x. sort_key_of x = k) (sort_scored (scored_list_of q merged))
     = filter (\<lambda>x. sort_key_of x = k) (scored_list_of q merged)
   \<and> safe_year_to_int ''(n.d.)'' = 0
   \<and> (py_int y = None \<longrightarrow> safe_year_to_int y = 0)"
proof (intro conjI allI impI)
  show "rank merged q top_n
     = map (\<lambda>t. snd (snd t)) (slice_to top_n (sort_scored (scored_list_of q merged)))"
    by (simp add: rank_def)
  show "scored_list_of q merged
     = map (\<lambda>p. (score_title (Some (title p)) q, safe_year_to_int (year p), p)) (map snd merged)"
    by (simp add: scored_list_of_def)
  show "mset (sort_scored (scored_list_of q merged)) = mset (scored_list_of q merged)"
    by (rule mset_sort_scored)
  show "fst (sort_scored (scored_list_of q merged) ! j)
           < fst (sort_scored (scored_list_of q merged) ! i)
         \<or> (fst (sort_scored (scored_list_of q merged) ! i)
              = fst (sort_scored (scored_list_of q merged) ! j)
            \<and> fst (snd (sort_scored (scored_list_of q merged) ! j))
              \<le> fst (snd (sort_scored (scored_list_of q merged) ! i)))"
    if "i < j \<and> j < length merged" for i j
    using that sort_scored_order[of i j "scored_list_of q merged"]
    by (simp add: length_sort_scored length_scored_list_of)
  show "filter (\<lambda>x. sort_key_of x = k) (sort_scored (scored_list_of q merged))
     = filter (\<lambda>x. sort_key_of x = k) (scored_list_of q merged)"
    by (rule stable_sort_scored)
  show "safe_year_to_int ''(n.d.)'' = 0" by (rule safe_year_nd)
  show "safe_year_to_int y = 0" if "py_int y = None"
    using that by (simp add: safe_year_to_int_def)
qed

theorem C3_rank_order_witness:
  "rank merged_example ''organic electrochemical transistors'' 2 = [paper_2020, paper_2019]
   \<and> map year (rank merged_example ''organic electrochemical transistors'' 2) = [''2020'', ''2019'']
   \<and> py_int ''(n.d.)'' = None \<and> safe_year_to_int ''(n.d.)'' = 0"
proof -
  note T = C3_rank_order [of merged_example "''organic electrochemical transistors''" 2
                             "(- 5, - 2020)" "''(n.d.)''"]
  from T have "rank merged_example ''organic electrochemical transistors'' 2
     = map (\<lambda>t. snd (snd t))
         (slice_to 2 (sort_scored (scored_list_of ''organic electrochemical transistors'' merged_example)))"
    by blast
  then have a: "rank merged_example ''organic electrochemical transistors'' 2 = [paper_2020, paper_2019]"
    by (simp add: sorted_example slice_to_def)
  have b: "map year [paper_2020, paper_2019] = [''2020'', ''2019'']"
    by (simp add: paper_2020_def paper_2019_def)
  have c: "py_int ''(n.d.)'' = None"
    by (simp add: py_int_def int_strip_def is_int_space_def max_str_digits_def int_body_def digit_val_def)
  with T have d: "safe_year_to_int ''(n.d.)'' = 0" by blast
  from a b c d show ?thesis by simp
qed

text \<open>
  Claim C4 says that the ranking is empty for every \<open>top_n \<le> 0\<close>, negative values
  included. The slice \<^verbatim>\<open>scored_list[:top_n]\<close> with \<open>top_n = -1\<close> drops only the last
  record: three records with different DOIs give two records, not none.
\<close>

theorem C4_negative_top_n_counterexample:
  "merge_and_score [paper_2023, paper_2019] [paper_2020]
     ''organic electrochemical transistors'' (- 1) = [paper_2020, paper_2019]"
  by (rule merge_and_score_example_neg)

text \<open>
  Claim C4, amended. For \<open>top_n \<ge> 0\<close> the ranking has \<open>min top_n n\<close> records, where
  \<open>n\<close> is the number of merged records: never more than \<open>top_n\<close>, all of them when
  there are at most \<open>top_n\<close>, and none for \<open>top_n = 0\<close>. For a negative \<open>top_n\<close> the
  slice leaves the ranked list without its last \<open>- top_n\<close> records, so the result is empty
  only when there are at most \<open>- top_n\<close> records. \<^verbatim>\<open>merge_and_score\<close> of both scripts is
  this ranking of the merged mapping, and the empty list when both inputs are empty.
\<close>

theorem C4_rank_truncation:
  "length (rank merged q top_n)
     = (if 0 \<le> top_n then min (nat top_n) (length merged) else length merged - nat (- top_n))
   \<and> (0 \<le> top_n \<longrightarrow> int (length (rank merged q top_n)) \<le> top_n)
   \<and> (int (length merged) \<le> top_n \<longrightarrow> mset (rank merged q top_n) = mset (map snd merged))
   \<and> rank merged q 0 = []
   \<and> merge_and_score papers_crossref papers_pubmed q top_n
      = (if papers_crossref @ papers_pubmed = [] then []
         else rank (merged_of papers_crossref papers_pubmed) q top_n)
   \<and> merge_and_score_api papers_crossref papers_pubmed q top_n
      = (if papers_crossref @ papers_pubmed = [] then []
         else rank (merged_of_api papers_crossref papers_pubmed) q top_n)"
proof (intro conjI impI)
  show len: "length (rank merged q top_n)
     = (if 0 \<le> top_n then min (nat top_n) (length merged) else length merged - nat (- top_n))"
    by (rule length_rank)
  show "int (length (rank merged q top_n)) \<le> top_n" if "0 \<le> top_n"
    using that by (simp add: length_rank)
  show "mset (rank merged q top_n) = mset (map snd merged)" if "int (length merged) \<le> top_n"
    using that by (rule rank_all)
  show "rank merged q 0 = []" by (simp add: rank_def slice_to_zero)
  show "merge_and_score papers_crossref papers_pubmed q top_n
      = (if papers_crossref @ papers_pubmed = [] then []
         else rank (merged_of papers_crossref papers_pubmed) q top_n)"
    by (simp add: merge_and_score_def merge_and_score_with_def merged_of_def Let_def)
  show "merge_and_score_api papers_crossref papers_pubmed q top_n
      = (if papers_crossref @ papers_pubmed = [] then []
         else rank (merged_of_api papers_crossref papers_pubmed) q top_n)"
    by (simp add: merge_and_score_api_def merge_and_score_with_def merged_of_api_def Let_def)
qed

theorem C4_rank_truncation_witness:
  "length (rank merged_example ''organic electrochemical transistors'' 2) = 2
   \<and> mset (rank merged_example ''organic electrochemical transistors'' 5)
      = mset [paper_2023, paper_2019, paper_2020]
   \<and> length (rank merged_example ''organic electrochemical transistors'' (- 1)) = 2"
proof -
  have l: "length merged_example = 3" by (simp add: merged_example_def)
  have m: "map snd merged_example = [paper_2023, paper_2019, paper_2020]"
    by (simp add: merged_example_def)
  from C4_rank_truncation [of merged_example "''organic electrochemical transistors''" 2 "[]" "[]"]
  have a: "length (rank merged_example ''organic electrochemical transistors'' 2) = 2"
    by (simp add: l)
  from C4_rank_truncation [of merged_example "''organic electrochemical transistors''" 5 "[]" "[]"]
  have b: "mset (rank merged_example ''organic electrochemical transistors'' 5)
      = mset [paper_2023, paper_2019, paper_2020]"
    by (simp add: l m)
  from C4_rank_truncation [of merged_example "''organic electrochemical transistors''" "- 1" "[]" "[]"]
  have c: "length (rank merged_example ''organic electrochemical transistors'' (- 1)) = 2"
    by (simp add: l)
  from a b c show ?thesis by simp
qed

text \<open>
  Claim C10. For every title, a missing one included, the score against the empty query
  is 2: the empty query occurs in every title and has no tokens. With the empty query the
  ranking is therefore the stable sort of the merged records by year descending, cut to
  \<open>top_n\<close>.
\<close>

theorem C10_empty_query:
  "score_title ttl [] = 2
   \<and> rank merged [] top_n
     = slice_to top_n (sort_key (\<lambda>p. - safe_year_to_int (year p)) (map snd merged))"
  by (simp add: score_empty_query rank_empty_query)

theorem C10_empty_query_witness:
  "score_title None [] = 2
   \<and> rank merged_example [] 2 = [paper_2023, paper_2020]"
proof -
  have "sort_key (\<lambda>p. - safe_year_to_int (year p)) (map snd merged_example)
        = [paper_2023, paper_2020, paper_2019]"
    by (simp add: merged_example_def year_paper_2020 year_paper_2019 year_paper_2023)
  with C10_empty_query [of None merged_example 2] show ?thesis
    by (simp add: slice_to_def)
qed

subsection \<open>The deduplication loop\<close>

lemma dedup_loop_keys:
  "map fst (dedup_loop f merged ps)
   = fold (\<lambda>k ks. if k \<in> set ks then ks else ks @ [k]) (map dedup_key ps) (map fst merged)"
proof (induction ps arbitrary: merged)
  case Nil
  show ?case by simp
next
  case (Cons p ps)
  show ?case
    by (cases "map_of merged (dedup_key p)") (simp_all add: Cons.IH Let_def keys_update del: set_map)
qed

lemma dedup_loop_map_of:
  "map_of (dedup_loop f merged ps) k
   = (case map_of merged k of
        Some e \<Rightarrow> Some (foldl f e (filter (\<lambda>p. dedup_key p = k) ps))
      | None \<Rightarrow> (case filter (\<lambda>p. dedup_key p = k) ps of
                   [] \<Rightarrow> None
                 | p0 # rest \<Rightarrow> Some (foldl f p0 rest)))"
proof (induction ps arbitrary: merged)
  case Nil
  show ?case by (simp split: option.splits)
next
  case (Cons p ps)
  show ?case
  proof (cases "map_of merged (dedup_key p)")
    case None
    then show ?thesis
      by (simp add: Cons.IH Let_def update_conv' split: option.splits)
  next
    case (Some e)
    then show ?thesis
      by (simp add: Cons.IH Let_def update_conv' split: option.splits)
  qed
qed

lemma distinct_dedup_loop: "distinct (map fst (dedup_loop f [] ps))"
  by (simp add: dedup_loop_keys distinct_fold_seen)

lemma keys_dedup_loop: "map fst (dedup_loop f [] ps) = fromkeys (map dedup_key ps)"
  by (simp add: dedup_loop_keys fromkeys_fold)

lemma entry_dedup_loop:
  "map_of (dedup_loop f [] ps) k
   = (case filter (\<lambda>p. dedup_key p = k) ps of
        [] \<Rightarrow> None
      | p0 # rest \<Rightarrow> Some (foldl f p0 rest))"
  by (simp add: dedup_loop_map_of)

lemma source_merge_source:
  "source (merge_source e p)
   = (if str_in (source p) (source e) then source e else source e @ ''+'' @ source p)"
  by (simp add: merge_source_def)

lemma source_merge_existing: "source (merge_existing e p) = source (merge_source e p)"
  by (simp add: merge_existing_def Let_def)

lemma source_merge_existing_api: "source (merge_existing_api e p) = source (merge_source e p)"
  by (simp add: merge_existing_api_def)

lemma str_in_refl: "str_in s s"
  by (simp add: str_in_def)

lemma str_in_plus: "str_in s (t @ ''+'' @ s)"
  unfolding str_in_def using sublist_append_leftI[of s "t @ ''+''"] by simp

lemma str_in_plus_Cons: "str_in s (t @ CHR ''+'' # s)"
  using str_in_plus[of s t] by simp

lemma source_foldl_same:
  assumes src: "\<And>e p. source (f e p) = source (merge_source e p)"
  shows "\<forall>p\<in>set ps. source p = s \<Longrightarrow> str_in s (source e) \<Longrightarrow> source (foldl f e ps) = source e"
proof (induction ps arbitrary: e)
  case Nil
  show ?case by simp
next
  case (Cons p ps)
  have "source (f e p) = source e"
    using Cons.prems by (simp add: src source_merge_source)
  with Cons show ?case by simp
qed

lemma source_foldl_new:
  assumes src: "\<And>e p. source (f e p) = source (merge_source e p)"
    and "\<forall>p\<in>set ps. source p = s" "ps \<noteq> []" "\<not> str_in s (source e)"
  shows "source (foldl f e ps) = source e @ ''+'' @ s"
proof (cases ps)
  case Nil
  with assms show ?thesis by simp
next
  case (Cons p ps')
  have a: "source (f e p) = source e @ ''+'' @ s"
    using assms Cons by (simp add: src source_merge_source)
  have "source (foldl f (f e p) ps') = source (f e p)"
    using assms(2) Cons by (intro source_foldl_same[OF src, of ps' s]) (simp_all add: a str_in_plus_Cons)
  with a Cons show ?thesis by simp
qed

lemma dedup_key_doi:
  "doi p = Some d \<Longrightarrow> d \<noteq> [] \<Longrightarrow> d \<noteq> ''(no DOI)'' \<Longrightarrow> dedup_key p = lower d"
  by (simp add: dedup_key_def truthy_def str_or_empty_def)

lemma dedup_key_title_year:
  "doi p = None \<or> doi p = Some [] \<or> doi p = Some ''(no DOI)'' \<Longrightarrow>
   dedup_key p = lower (title p) @ ''_'' @ year p"
  by (auto simp add: dedup_key_def truthy_def)

lemma dedup_loop_pair:
  "dedup_key a = dedup_key b \<Longrightarrow> dedup_loop f [] [a, b] = [(dedup_key a, f a b)]"
  by (simp add: Let_def)

lemma not_pubmed_in_crossref: "\<not> str_in ''PubMed'' ''Crossref''"
  by (simp add: str_in_def sublist_code prefix_code)

lemma entry_source_providers:
  assumes src: "\<And>e p. source (f e p) = source (merge_source e p)"
    and xs: "\<forall>p\<in>set xs. from_crossref p" and ys: "\<forall>p\<in>set ys. from_pubmed p"
    and e: "map_of (dedup_loop f [] (xs @ ys)) k = Some e"
  shows "source e =
    (if k \<in> dedup_key ` set xs
     then (if k \<in> dedup_key ` set ys then ''Crossref+PubMed'' else ''Crossref'')
     else ''PubMed'')"
proof -
  let ?A = "filter (\<lambda>p. dedup_key p = k) xs"
  let ?B = "filter (\<lambda>p. dedup_key p = k) ys"
  have sA: "\<forall>p\<in>set ?A. source p = ''Crossref''" using xs by (simp add: from_crossref_def)
  have sB: "\<forall>p\<in>set ?B. source p = ''PubMed''" using ys by (simp add: from_pubmed_def)
  have inA: "k \<in> dedup_key ` set xs \<longleftrightarrow> ?A \<noteq> []" by (auto simp: filter_empty_conv)
  have inB: "k \<in> dedup_key ` set ys \<longleftrightarrow> ?B \<noteq> []" by (auto simp: filter_empty_conv)
  from e have ent: "(case ?A @ ?B of [] \<Rightarrow> None | p0 # rest \<Rightarrow> Some (foldl f p0 rest)) = Some e"
    by (simp add: entry_dedup_loop)
  show ?thesis
  proof (cases ?A)
    case Nil
    with ent obtain b rest where B: "?B = b # rest" and ee: "e = foldl f b rest"
      by (cases ?B) auto
    from sB B have "source b = ''PubMed''" "\<forall>p\<in>set rest. source p = ''PubMed''" by simp_all
    then have "source (foldl f b rest) = source b"
      by (intro source_foldl_same[OF src, of rest "''PubMed''"]) (simp_all add: str_in_refl)
    with \<open>source b = ''PubMed''\<close> ee Nil inA show ?thesis by simp
  next
    case (Cons a rest)
    with ent have ee: "e = foldl f (foldl f a rest) ?B" by simp
    from sA Cons have "source a = ''Crossref''" "\<forall>p\<in>set rest. source p = ''Crossref''" by simp_all
    then have c: "source (foldl f a rest) = ''Crossref''"
      using source_foldl_same[OF src, of rest "''Crossref''" a] by (simp add: str_in_refl)
    show ?thesis
    proof (cases "?B = []")
      case True
      with ee c Cons inA inB show ?thesis by simp
    next
      case False
      have "source (foldl f (foldl f a rest) ?B) = source (foldl f a rest) @ ''+'' @ ''PubMed''"
        using sB False by (intro source_foldl_new[OF src]) (simp_all add: c not_pubmed_in_crossref)
      with ee c Cons inA inB False show ?thesis by simp
    qed
  qed
qed

lemma one_entry_per_key:
  "distinct (map fst m) \<Longrightarrow> k \<in> set (map fst m) \<Longrightarrow> length (filter (\<lambda>kv. fst kv = k) m) = 1"
proof (induction m)
  case Nil
  then show ?case by simp
next
  case (Cons x m)
  show ?case
  proof (cases "fst x = k")
    case True
    with Cons.prems have "k \<notin> fst ` set m" by simp
    then have "filter (\<lambda>kv. fst kv = k) m = []" by (auto simp: filter_empty_conv)
    with True show ?thesis by simp
  next
    case False
    with Cons show ?thesis by simp
  qed
qed

lemma entry_source_same:
  assumes src: "\<And>e p. source (f e p) = source (merge_source e p)"
    and r: "r \<in> set ps"
    and same: "\<forall>p\<in>set ps. dedup_key p = dedup_key r \<longrightarrow> source p = source r"
  shows "length (filter (\<lambda>kv. fst kv = dedup_key r) (dedup_loop f [] ps)) = 1
         \<and> (\<exists>e. map_of (dedup_loop f [] ps) (dedup_key r) = Some e \<and> source e = source r)"
proof
  have "dedup_key r \<in> set (map fst (dedup_loop f [] ps))"
    using r by (simp add: keys_dedup_loop set_fromkeys)
  then show "length (filter (\<lambda>kv. fst kv = dedup_key r) (dedup_loop f [] ps)) = 1"
    using distinct_dedup_loop by (rule one_entry_per_key[rotated])
  let ?G = "filter (\<lambda>p. dedup_key p = dedup_key r) ps"
  from r have "r \<in> set ?G" by simp
  then obtain p0 rest where G: "?G = p0 # rest" by (cases ?G) auto
  have all: "\<forall>p\<in>set ?G. source p = source r" using same by simp
  with G have p0: "source p0 = source r" and rest: "\<forall>p\<in>set rest. source p = source r"
    by simp_all
  have "source (foldl f p0 rest) = source p0"
    using rest by (intro source_foldl_same[OF src, of rest "source r"]) (simp_all add: p0 str_in_refl)
  with G p0 show "\<exists>e. map_of (dedup_loop f [] ps) (dedup_key r) = Some e \<and> source e = source r"
    by (simp add: entry_dedup_loop)
qed

text \<open>
  Claim C1. The merge keys a record by \<^verbatim>\<open>doi.lower()\<close> when its DOI is present (neither
  \<^verbatim>\<open>None\<close> nor empty) and is not the placeholder \<open>(no DOI)\<close>, and otherwise by the
  lowercased title, an underscore and the year. The keys of the merged mapping are the
  keys of the records of both lists, Crossref's first, each once and in first-seen order.
  For normalised lists the source of an entry is \<open>Crossref+PubMed\<close> when both lists hold a
  record with its key, and the provider's name otherwise. In particular a Crossref record
  and a PubMed record whose DOIs differ only in letter case are merged into exactly one
  record, whose source is \<open>Crossref+PubMed\<close>. Both scripts agree on this.
\<close>

theorem C1_merge_keys_and_sources:
  "(doi p = Some d \<and> d \<noteq> [] \<and> d \<noteq> ''(no DOI)'' \<longrightarrow> dedup_key p = lower d)
   \<and> (doi p = None \<or> doi p = Some [] \<or> doi p = Some ''(no DOI)'' \<longrightarrow>
        dedup_key p = lower (title p) @ ''_'' @ year p)
   \<and> map fst (merged_of xs ys) = fromkeys (map dedup_key (xs @ ys))
   \<and> map fst (merged_of_api xs ys) = fromkeys (map dedup_key (xs @ ys))
   \<and> ((\<forall>p\<in>set xs. from_crossref p) \<and> (\<forall>p\<in>set ys. from_pubmed p)
        \<and> (map_of (merged_of xs ys) k = Some e \<or> map_of (merged_of_api xs ys) k = Some e) \<longrightarrow>
        source e =
          (if k \<in> dedup_key ` set xs
           then (if k \<in> dedup_key ` set ys then ''Crossref+PubMed'' else ''Crossref'')
           else ''PubMed''))
   \<and> (from_crossref a \<and> from_pubmed b \<and> doi a = Some da \<and> doi b = Some db
        \<and> da \<noteq> [] \<and> da \<noteq> ''(no DOI)'' \<and> db \<noteq> [] \<and> db \<noteq> ''(no DOI)''
        \<and> lower da = lower db \<longrightarrow>
        merged_of [a] [b] = [(lower da, merge_existing a b)]
        \<and> source (merge_existing a b) = ''Crossref+PubMed''
        \<and> merged_of_api [a] [b] = [(lower da, merge_existing_api a b)]
        \<and> source (merge_existing_api a b) = ''Crossref+PubMed'')"
proof (intro conjI impI)
  show "dedup_key p = lower d" if "doi p = Some d \<and> d \<noteq> [] \<and> d \<noteq> ''(no DOI)''"
    using that by (simp add: dedup_key_doi)
  show "dedup_key p = lower (title p) @ ''_'' @ year p"
    if "doi p = None \<or> doi p = Some [] \<or> doi p = Some ''(no DOI)''"
    using that by (rule dedup_key_title_year)
  show "map fst (merged_of xs ys) = fromkeys (map dedup_key (xs @ ys))"
    unfolding merged_of_def by (rule keys_dedup_loop)
  show "map fst (merged_of_api xs ys) = fromkeys (map dedup_key (xs @ ys))"
    unfolding merged_of_api_def by (rule keys_dedup_loop)
  show "source e =
          (if k \<in> dedup_key ` set xs
           then (if k \<in> dedup_key ` set ys then ''Crossref+PubMed'' else ''Crossref'')
           else ''PubMed'')"
    if h: "(\<forall>p\<in>set xs. from_crossref p) \<and> (\<forall>p\<in>set ys. from_pubmed p)
        \<and> (map_of (merged_of xs ys) k = Some e \<or> map_of (merged_of_api xs ys) k = Some e)"
  proof -
    from h have xs: "\<forall>p\<in>set xs. from_crossref p" and ys: "\<forall>p\<in>set ys. from_pubmed p"
      by simp_all
    from h consider "map_of (merged_of xs ys) k = Some e" | "map_of (merged_of_api xs ys) k = Some e"
      by blast
    then show ?thesis
    proof cases
      case 1
      then show ?thesis
        unfolding merged_of_def
        by (rule entry_source_providers[OF source_merge_existing xs ys])
    next
      case 2
      then show ?thesis
        unfolding merged_of_api_def
        by (rule entry_source_providers[OF source_merge_existing_api xs ys])
    qed
  qed
next
  assume h: "from_crossref a \<and> from_pubmed b \<and> doi a = Some da \<and> doi b = Some db
        \<and> da \<noteq> [] \<and> da \<noteq> ''(no DOI)'' \<and> db \<noteq> [] \<and> db \<noteq> ''(no DOI)''
        \<and> lower da = lower db"
  then have ka: "dedup_key a = lower da" and kb: "dedup_key b = lower da"
    by (simp_all add: dedup_key_doi)
  from h have sa: "source a = ''Crossref''" and sb: "source b = ''PubMed''"
    by (simp_all add: from_crossref_def from_pubmed_def)
  have keq: "dedup_key a = dedup_key b" using ka kb by simp
  show "merged_of [a] [b] = [(lower da, merge_existing a b)]"
    using dedup_loop_pair[OF keq, of merge_existing] by (simp add: merged_of_def ka)
  show "merged_of_api [a] [b] = [(lower da, merge_existing_api a b)]"
    using dedup_loop_pair[OF keq, of merge_existing_api] by (simp add: merged_of_api_def ka)
  have m: "source (merge_source a b) = ''Crossref+PubMed''"
    by (simp add: source_merge_source sa sb not_pubmed_in_crossref)
  show "source (merge_existing a b) = ''Crossref+PubMed''"
    by (simp only: source_merge_existing m)
  show "source (merge_existing_api a b) = ''Crossref+PubMed''"
    by (simp only: source_merge_existing_api m)
qed

theorem C1_merge_witness:
  "from_crossref crossref_example \<and> from_pubmed pubmed_example
   \<and> doi crossref_example = Some ''10.1/x'' \<and> doi pubmed_example = Some ''10.1/X''
   \<and> lower ''10.1/x'' = lower ''10.1/X''
   \<and> merged_of [crossref_example] [pubmed_example]
      = [(''10.1/x'', merge_existing crossref_example pubmed_example)]
   \<and> source (merge_existing crossref_example pubmed_example) = ''Crossref+PubMed''
   \<and> map source (merge_and_score [crossref_example] [pubmed_example]
                    ''organic electrochemical transistors'' 3) = [''Crossref+PubMed'']"
proof -
  have h1: "from_crossref crossref_example" by (simp add: from_crossref_def crossref_example_def)
  have h2: "from_pubmed pubmed_example" by (simp add: from_pubmed_def pubmed_example_def)
  have h3: "doi crossref_example = Some ''10.1/x''" by (simp add: crossref_example_def)
  have h4: "doi pubmed_example = Some ''10.1/X''" by (simp add: pubmed_example_def)
  have h5: "lower ''10.1/x'' = lower ''10.1/X''" by (simp add: lower_def lower_char_def)
  have h6: "lower ''10.1/x'' = ''10.1/x''" by (simp add: lower_def lower_char_def)
  have h7: "''10.1/x'' \<noteq> [] \<and> ''10.1/x'' \<noteq> ''(no DOI)'' \<and> ''10.1/X'' \<noteq> [] \<and> ''10.1/X'' \<noteq> ''(no DOI)''"
    by simp
  note T = C1_merge_keys_and_sources
    [of crossref_example "''10.1/x''" "[]" "[]" "''k''" crossref_example
        crossref_example pubmed_example "''10.1/x''" "''10.1/X''"]
  from T h1 h2 h3 h4 h5 h7
  have a: "merged_of [crossref_example] [pubmed_example]
           = [(lower ''10.1/x'', merge_existing crossref_example pubmed_example)]"
    and b: "source (merge_existing crossref_example pubmed_example) = ''Crossref+PubMed''"
    by blast+
  have c: "merge_and_score [crossref_example] [pubmed_example]
             ''organic electrochemical transistors'' 3
           = [merge_existing crossref_example pubmed_example]"
    using a by (simp add: merge_and_score_def merge_and_score_with_def merged_of_def Let_def
                  rank_def scored_list_of_def sort_scored_def slice_to_def)
  have a': "merged_of [crossref_example] [pubmed_example]
           = [(''10.1/x'', merge_existing crossref_example pubmed_example)]"
    using a by (simp only: h6)
  have c': "map source (merge_and_score [crossref_example] [pubmed_example]
                    ''organic electrochemical transistors'' 3) = [''Crossref+PubMed'']"
    by (simp only: c b list.map)
  from h1 h2 h3 h4 h5 a' b c' show ?thesis by blast
qed

text \<open>
  Claim C5. Merging an input in which a record \<open>r\<close> occurs twice gives exactly one entry
  under the key of \<open>r\<close>, and the source of that entry is the source of \<open>r\<close>: nothing is
  appended when the name of the later record already occurs in the stored source. The
  same holds within longer inputs, as long as the records that share the key of \<open>r\<close>
  share its source.
\<close>

theorem C5_merge_idempotent_source:
  "merged_of [r] [r] = [(dedup_key r, merge_existing r r)]
   \<and> merged_of [r, r] [] = [(dedup_key r, merge_existing r r)]
   \<and> merged_of [] [r, r] = [(dedup_key r, merge_existing r r)]
   \<and> source (merge_existing r r) = source r
   \<and> merged_of_api [r] [r] = [(dedup_key r, merge_existing_api r r)]
   \<and> source (merge_existing_api r r) = source r
   \<and> (str_in (source p) (source e) \<longrightarrow>
        source (merge_existing e p) = source e \<and> source (merge_existing_api e p) = source e)
   \<and> (r \<in> set (xs @ ys)
        \<and> (\<forall>p\<in>set (xs @ ys). dedup_key p = dedup_key r \<longrightarrow> source p = source r) \<longrightarrow>
        length (filter (\<lambda>kv. fst kv = dedup_key r) (merged_of xs ys)) = 1
        \<and> (\<exists>e. map_of (merged_of xs ys) (dedup_key r) = Some e \<and> source e = source r)
        \<and> length (filter (\<lambda>kv. fst kv = dedup_key r) (merged_of_api xs ys)) = 1
        \<and> (\<exists>e. map_of (merged_of_api xs ys) (dedup_key r) = Some e \<and> source e = source r))"
proof (intro conjI impI)
  show "merged_of [r] [r] = [(dedup_key r, merge_existing r r)]"
    using dedup_loop_pair[of r r merge_existing] by (simp add: merged_of_def)
  show "merged_of [r, r] [] = [(dedup_key r, merge_existing r r)]"
    using dedup_loop_pair[of r r merge_existing] by (simp add: merged_of_def)
  show "merged_of [] [r, r] = [(dedup_key r, merge_existing r r)]"
    using dedup_loop_pair[of r r merge_existing] by (simp add: merged_of_def)
  show "source (merge_existing r r) = source r"
    by (simp add: source_merge_existing source_merge_source str_in_refl)
  show "merged_of_api [r] [r] = [(dedup_key r, merge_existing_api r r)]"
    using dedup_loop_pair[of r r merge_existing_api] by (simp add: merged_of_api_def)
  show "source (merge_existing_api r r) = source r"
    by (simp add: source_merge_existing_api source_merge_source str_in_refl)
  show "source (merge_existing e p) = source e" if "str_in (source p) (source e)"
    using that by (simp add: source_merge_existing source_merge_source)
  show "source (merge_existing_api e p) = source e" if "str_in (source p) (source e)"
    using that by (simp add: source_merge_existing_api source_merge_source)
next
  assume h: "r \<in> set (xs @ ys)
        \<and> (\<forall>p\<in>set (xs @ ys). dedup_key p = dedup_key r \<longrightarrow> source p = source r)"
  then have r: "r \<in> set (xs @ ys)"
    and same: "\<forall>p\<in>set (xs @ ys). dedup_key p = dedup_key r \<longrightarrow> source p = source r"
    by blast+
  note A = entry_source_same[OF source_merge_existing r same, folded merged_of_def]
  note B = entry_source_same[OF source_merge_existing_api r same, folded merged_of_api_def]
  from A show "length (filter (\<lambda>kv. fst kv = dedup_key r) (merged_of xs ys)) = 1" by blast
  from A show "\<exists>e. map_of (merged_of xs ys) (dedup_key r) = Some e \<and> source e = source r" by blast
  from B show "length (filter (\<lambda>kv. fst kv = dedup_key r) (merged_of_api xs ys)) = 1" by blast
  from B show "\<exists>e. map_of (merged_of_api xs ys) (dedup_key r) = Some e \<and> source e = source r"
    by blast
qed

theorem C5_merge_idempotent_witness:
  "merged_of [pubmed_example] [pubmed_example]
     = [(''10.1/x'', merge_existing pubmed_example pubmed_example)]
   \<and> source (merge_existing pubmed_example pubmed_example) = ''PubMed''
   \<and> length (filter (\<lambda>kv. fst kv = ''10.1/x'') (merged_of [paper_2023, pubmed_example] [pubmed_example])) = 1
   \<and> (\<exists>e. map_of (merged_of [paper_2023, pubmed_example] [pubmed_example]) ''10.1/x'' = Some e
          \<and> source e = ''PubMed'')"
proof -
  have k: "dedup_key pubmed_example = ''10.1/x''"
    by (simp add: dedup_key_def truthy_def pubmed_example_def str_or_empty_def lower_def lower_char_def)
  have k3: "dedup_key paper_2023 = ''10.1/c''"
    by (simp add: dedup_key_def truthy_def paper_2023_def crossref_example_def str_or_empty_def
          lower_def lower_char_def)
  have s: "source pubmed_example = ''PubMed''" by (simp add: pubmed_example_def)
  have h: "pubmed_example \<in> set ([paper_2023, pubmed_example] @ [pubmed_example])
     \<and> (\<forall>p\<in>set ([paper_2023, pubmed_example] @ [pubmed_example]).
           dedup_key p = dedup_key pubmed_example \<longrightarrow> source p = source pubmed_example)"
    by (simp add: k k3)
  note T = C5_merge_idempotent_source
    [of pubmed_example pubmed_example pubmed_example "[paper_2023, pubmed_example]" "[pubmed_example]"]
  from T h show ?thesis unfolding k s by blast
qed

subsection \<open>The string primitives outside ASCII\<close>

lemma lower_latin1:
  "lower [CHR 0xC9, CHR ''T'', CHR 0xD7, CHR 0xDF, CHR 0xDE] = [CHR 0xE9, CHR ''t'', CHR 0xD7, CHR 0xDF, CHR 0xFE]"
  by (simp add: lower_def lower_char_def)

lemma split_nbsp: "split [CHR ''a'', CHR 0xA0, CHR ''b'', CHR 0x85, CHR 0x1C, CHR ''c''] = [''a'', ''b'', ''c'']"
  by (simp add: split_def is_space_def)

lemma py_int_separator: "py_int (CHR 0x1C # ''2020'') = None"
  by (simp add: py_int_def int_strip_def is_int_space_def max_str_digits_def int_body_def digit_val_def)

lemma py_int_nbsp: "py_int (CHR 0xA0 # ''2020'' @ [CHR 0x85, CHR 0x0A]) = Some 2020"
  by (simp add: py_int_def int_strip_def is_int_space_def max_str_digits_def int_body_def digit_val_def)

lemma py_int_forms:
  "py_int ''-2_0'' = Some (- 20)" "py_int ''+007'' = Some 7" "py_int ''2__0'' = None"
  "py_int ''20_'' = None" "py_int ''_20'' = None" "py_int ''- 20'' = None" "py_int '''' = None"
  "py_int ''2 0'' = None" "py_int ''20.0'' = None"
  by (simp_all add: py_int_def int_strip_def is_int_space_def max_str_digits_def int_body_def digit_val_def)

lemma int_body_too_long:
  "max_str_digits < length (filter (\<lambda>d. digit_val d \<noteq> None) s) \<Longrightarrow> int_body s = None"
  by (cases s) (simp_all add: int_body_def)

subsection \<open>Enrichment\<close>

lemma set_requested_pmids:
  "set (requested_pmids papers)
   = {str_or_empty (pmid p) | p. p \<in> set papers \<and> truthy (pmid p) \<and> str_in ''PubMed'' (source p)}"
  by (auto simp add: requested_pmids_def)

lemma requested_pmids_Nil:
  "requested_pmids papers = []
   \<longleftrightarrow> (\<forall>p\<in>set papers. \<not> (truthy (pmid p) \<and> str_in ''PubMed'' (source p)))"
proof -
  have "requested_pmids papers = [] \<longleftrightarrow> set (requested_pmids papers) = {}" by simp
  also have "\<dots> \<longleftrightarrow> (\<forall>p\<in>set papers. \<not> (truthy (pmid p) \<and> str_in ''PubMed'' (source p)))"
    unfolding set_requested_pmids by blast
  finally show ?thesis .
qed

lemma add_abstracts_no_pmids:
  "requested_pmids papers = [] \<Longrightarrow> add_abstracts_to_papers fetch papers = (papers, [])"
  by (simp add: add_abstracts_to_papers_def)

lemma enrich_one_no_entry:
  "\<not> truthy (pmid p) \<or> info_map (str_or_empty (pmid p)) = None \<Longrightarrow> enrich_one info_map p = p"
  by (auto simp add: enrich_one_def)

lemma enrich_all_no_entry:
  assumes "\<forall>p\<in>set papers. truthy (pmid p) \<longrightarrow> info_map (str_or_empty (pmid p)) = None"
  shows "map (enrich_one info_map) papers = papers"
proof (rule map_idI)
  fix p assume "p \<in> set papers"
  with assms have "\<not> truthy (pmid p) \<or> info_map (str_or_empty (pmid p)) = None" by auto
  then show "enrich_one info_map p = p" by (rule enrich_one_no_entry)
qed

lemma fst_add_abstracts:
  "fst (add_abstracts_to_papers fetch papers)
   = (if requested_pmids papers = [] then papers
      else map (enrich_one (fetch (requested_pmids papers))) papers)"
  by (simp add: add_abstracts_to_papers_def Let_def)

lemma add_abstracts_empty_map:
  "fetch (requested_pmids papers) = Map.empty \<Longrightarrow> fst (add_abstracts_to_papers fetch papers) = papers"
  by (simp add: fst_add_abstracts enrich_all_no_entry)

lemma add_abstracts_fetch_fails:
  "efetch (requested_pmids papers) = None \<Longrightarrow>
   fst (add_abstracts_to_papers (fetch_pubmed_abstracts efetch) papers) = papers"
  by (rule add_abstracts_empty_map) (simp add: fetch_pubmed_abstracts_def)

lemma add_abstracts_no_requested_entry:
  assumes ok: "\<forall>p\<in>set papers. pmid_ok p"
    and none: "\<forall>i\<in>set (requested_pmids papers). fetch (requested_pmids papers) i = None"
  shows "fst (add_abstracts_to_papers fetch papers) = papers"
proof -
  have "\<forall>p\<in>set papers. truthy (pmid p) \<longrightarrow>
          fetch (requested_pmids papers) (str_or_empty (pmid p)) = None"
  proof (intro ballI impI)
    fix p assume p: "p \<in> set papers" and t: "truthy (pmid p)"
    with ok have "str_in ''PubMed'' (source p)" by (simp add: pmid_ok_def)
    with p t have "str_or_empty (pmid p) \<in> set (requested_pmids papers)"
      unfolding set_requested_pmids by blast
    with none show "fetch (requested_pmids papers) (str_or_empty (pmid p)) = None" by blast
  qed
  then show ?thesis by (simp add: fst_add_abstracts enrich_all_no_entry)
qed

lemma pmid_ok_crossref: "from_crossref p \<Longrightarrow> pmid_ok p"
  by (simp add: from_crossref_def pmid_ok_def truthy_def)

lemma pmid_ok_pubmed: "from_pubmed p \<Longrightarrow> pmid_ok p"
  by (simp add: from_pubmed_def pmid_ok_def str_in_refl)

lemma str_in_trans: "str_in a b \<Longrightarrow> str_in b c \<Longrightarrow> str_in a c"
  unfolding str_in_def by (rule sublist_order.order.trans)

lemma source_in_merge_source_left: "str_in (source e) (source (merge_source e p))"
  by (simp add: source_merge_source str_in_refl str_in_def)

lemma source_in_merge_source_right: "str_in (source p) (source (merge_source e p))"
  by (simp add: source_merge_source str_in_plus_Cons)

lemma pmid_merge_existing:
  "pmid (merge_existing e p) = (if \<not> truthy (pmid e) \<and> truthy (pmid p) then pmid p else pmid e)"
  by (simp add: merge_existing_def merge_source_def Let_def)

lemma pmid_ok_merge_existing:
  assumes "pmid_ok e" "pmid_ok p"
  shows "pmid_ok (merge_existing e p)"
  unfolding pmid_ok_def
proof
  assume t: "truthy (pmid (merge_existing e p))"
  have "str_in ''PubMed'' (source (merge_source e p))"
  proof (cases "\<not> truthy (pmid e) \<and> truthy (pmid p)")
    case True
    with assms(2) have "str_in ''PubMed'' (source p)" by (simp add: pmid_ok_def)
    then show ?thesis using source_in_merge_source_right by (rule str_in_trans)
  next
    case False
    with t have "truthy (pmid e)" by (simp add: pmid_merge_existing)
    with assms(1) have "str_in ''PubMed'' (source e)" by (simp add: pmid_ok_def)
    then show ?thesis using source_in_merge_source_left by (rule str_in_trans)
  qed
  then show "str_in ''PubMed'' (source (merge_existing e p))"
    by (simp only: source_merge_existing)
qed

lemma set_alist_update: "set (AList.update k v m) \<subseteq> insert (k, v) (set m)"
  by (induction m) auto

lemma dedup_loop_values:
  assumes f: "\<And>e p. P e \<Longrightarrow> P p \<Longrightarrow> P (f e p)"
  shows "\<forall>kv\<in>set merged. P (snd kv) \<Longrightarrow> \<forall>p\<in>set ps. P p \<Longrightarrow>
         \<forall>kv\<in>set (dedup_loop f merged ps). P (snd kv)"
proof (induction ps arbitrary: merged)
  case Nil
  then show ?case by simp
next
  case (Cons p ps)
  let ?m = "case map_of merged (dedup_key p) of
              Some existing \<Rightarrow> AList.update (dedup_key p) (f existing p) merged
            | None \<Rightarrow> AList.update (dedup_key p) p merged"
  have "\<forall>kv\<in>set ?m. P (snd kv)"
  proof (cases "map_of merged (dedup_key p)")
    case None
    then show ?thesis using Cons.prems set_alist_update[of "dedup_key p" p merged] by auto
  next
    case (Some e)
    then have "(dedup_key p, e) \<in> set merged" by (rule map_of_SomeD)
    with Cons.prems have "P e" by auto
    with Cons.prems have "P (f e p)" by (intro f) simp_all
    with Some show ?thesis
      using Cons.prems set_alist_update[of "dedup_key p" "f e p" merged] by auto
  qed
  moreover have "\<forall>q\<in>set ps. P q" using Cons.prems by simp
  ultimately have "\<forall>kv\<in>set (dedup_loop f ?m ps). P (snd kv)" by (rule Cons.IH)
  then show ?case by (simp add: Let_def)
qed

lemma set_slice_to: "set (slice_to n xs) \<subseteq> set xs"
  by (simp add: slice_to_def set_take_subset)

lemma set_rank: "set (rank merged q top_n) \<subseteq> snd ` set merged"
proof -
  have "set (rank merged q top_n)
        \<subseteq> (\<lambda>t. snd (snd t)) ` set (sort_scored (scored_list_of q merged))"
    unfolding rank_def using set_slice_to[of top_n "sort_scored (scored_list_of q merged)"]
    by auto
  also have "\<dots> = set (map (\<lambda>t. snd (snd t)) (scored_list_of q merged))"
    by (simp add: sort_scored_def)
  also have "\<dots> = snd ` set merged" by (simp only: papers_scored_list_of set_map)
  finally show ?thesis .
qed

lemma pmid_ok_merge_and_score:
  assumes xs: "\<forall>p\<in>set xs. from_crossref p" and ys: "\<forall>p\<in>set ys. from_pubmed p"
  shows "\<forall>p\<in>set (merge_and_score xs ys q top_n). pmid_ok p"
proof (cases "xs @ ys = []")
  case True
  then show ?thesis by (simp add: merge_and_score_def merge_and_score_with_def)
next
  case False
  have "\<forall>p\<in>set (xs @ ys). pmid_ok p"
    using xs ys pmid_ok_crossref pmid_ok_pubmed by auto
  then have v: "\<forall>kv\<in>set (dedup_loop merge_existing [] (xs @ ys)). pmid_ok (snd kv)"
    by (intro dedup_loop_values[where P = pmid_ok] pmid_ok_merge_existing) simp_all
  have "merge_and_score xs ys q top_n = rank (dedup_loop merge_existing [] (xs @ ys)) q top_n"
    using False by (auto simp add: merge_and_score_def merge_and_score_with_def Let_def)
  with v set_rank[of "dedup_loop merge_existing [] (xs @ ys)" q top_n] show ?thesis
    by auto
qed

lemma merge_and_score_example:
  "merge_and_score [crossref_example] [pubmed_example] ''organic electrochemical transistors'' 3
   = [merge_existing crossref_example pubmed_example]"
  by (simp add: merge_and_score_def merge_and_score_with_def Let_def dedup_key_def truthy_def
        crossref_example_def pubmed_example_def lower_def lower_char_def str_or_empty_def
        rank_def sort_scored_def scored_list_of_def slice_to_def)

lemma requested_pmids_merged_example:
  "requested_pmids [merge_existing crossref_example pubmed_example] = [''31415926'']"
  by (simp add: requested_pmids_def merge_existing_def merge_source_def Let_def
        crossref_example_def pubmed_example_def truthy_def str_or_empty_def
        str_in_def sublist_code prefix_code)

text \<open>
  Claim C6. The ids requested from PubMed are those of the records that carry a PubMed id
  and name PubMed in their source. When there is none, \<^verbatim>\<open>add_abstracts_to_papers\<close>
  returns the list it was given and makes no call to the fetch function. When
  \<^verbatim>\<open>fetch_pubmed_abstracts\<close> fails (the request or the parser raises), or the fetch
  returns the empty dictionary, the result equals the input, record for record. When the
  fetch returns no entry for any requested id, the result equals the input for every
  list whose records with a PubMed id name PubMed in their source; every list returned
  by \<^verbatim>\<open>merge_and_score\<close> on normalised records is such a list, so for every ranked list
  the result equals the input.
\<close>

theorem C6_enrich_best_effort:
  "(requested_pmids papers = []
      \<longleftrightarrow> (\<forall>p\<in>set papers. \<not> (truthy (pmid p) \<and> str_in ''PubMed'' (source p))))
   \<and> (requested_pmids papers = [] \<longrightarrow> add_abstracts_to_papers fetch papers = (papers, []))
   \<and> (efetch (requested_pmids papers) = None \<longrightarrow>
        fst (add_abstracts_to_papers (fetch_pubmed_abstracts efetch) papers) = papers)
   \<and> (fetch (requested_pmids papers) = Map.empty \<longrightarrow>
        fst (add_abstracts_to_papers fetch papers) = papers)
   \<and> ((\<forall>p\<in>set papers. pmid_ok p)
        \<and> (\<forall>i\<in>set (requested_pmids papers). fetch (requested_pmids papers) i = None) \<longrightarrow>
        fst (add_abstracts_to_papers fetch papers) = papers)
   \<and> ((\<forall>p\<in>set xs. from_crossref p) \<and> (\<forall>p\<in>set ys. from_pubmed p) \<longrightarrow>
        (\<forall>p\<in>set (merge_and_score xs ys q top_n). pmid_ok p))
   \<and> ((\<forall>p\<in>set xs. from_crossref p) \<and> (\<forall>p\<in>set ys. from_pubmed p)
        \<and> (\<forall>i\<in>set (requested_pmids (merge_and_score xs ys q top_n)).
              fetch (requested_pmids (merge_and_score xs ys q top_n)) i = None) \<longrightarrow>
        fst (add_abstracts_to_papers fetch (merge_and_score xs ys q top_n))
          = merge_and_score xs ys q top_n)"
proof (intro conjI impI)
  show "requested_pmids papers = []
      \<longleftrightarrow> (\<forall>p\<in>set papers. \<not> (truthy (pmid p) \<and> str_in ''PubMed'' (source p)))"
    by (rule requested_pmids_Nil)
  show "add_abstracts_to_papers fetch papers = (papers, [])" if "requested_pmids papers = []"
    using that by (rule add_abstracts_no_pmids)
  show "fst (add_abstracts_to_papers (fetch_pubmed_abstracts efetch) papers) = papers"
    if "efetch (requested_pmids papers) = None"
    using that by (rule add_abstracts_fetch_fails)
  show "fst (add_abstracts_to_papers fetch papers) = papers"
    if "fetch (requested_pmids papers) = Map.empty"
    using that by (rule add_abstracts_empty_map)
  show "fst (add_abstracts_to_papers fetch papers) = papers"
    if "(\<forall>p\<in>set papers. pmid_ok p)
        \<and> (\<forall>i\<in>set (requested_pmids papers). fetch (requested_pmids papers) i = None)"
    using that add_abstracts_no_requested_entry[of papers fetch] by blast
  show "\<forall>p\<in>set (merge_and_score xs ys q top_n). pmid_ok p"
    if "(\<forall>p\<in>set xs. from_crossref p) \<and> (\<forall>p\<in>set ys. from_pubmed p)"
    using that pmid_ok_merge_and_score[of xs ys q top_n] by blast
  show "fst (add_abstracts_to_papers fetch (merge_and_score xs ys q top_n))
          = merge_and_score xs ys q top_n"
    if h: "(\<forall>p\<in>set xs. from_crossref p) \<and> (\<forall>p\<in>set ys. from_pubmed p)
        \<and> (\<forall>i\<in>set (requested_pmids (merge_and_score xs ys q top_n)).
              fetch (requested_pmids (merge_and_score xs ys q top_n)) i = None)"
  proof -
    from h have "\<forall>p\<in>set (merge_and_score xs ys q top_n). pmid_ok p"
      using pmid_ok_merge_and_score[of xs ys q top_n] by blast
    with h show ?thesis
      using add_abstracts_no_requested_entry[of "merge_and_score xs ys q top_n" fetch] by blast
  qed
qed

theorem C6_enrich_witness:
  "requested_pmids [crossref_example] = []
   \<and> add_abstracts_to_papers (fetch_pubmed_abstracts (\<lambda>ids. Some info_example)) [crossref_example]
      = ([crossref_example], [])
   \<and> requested_pmids [pubmed_example] = [''31415926'']
   \<and> fst (add_abstracts_to_papers (fetch_pubmed_abstracts (\<lambda>ids. None)) [pubmed_example])
      = [pubmed_example]
   \<and> truthy (pmid pubmed_example) \<and> str_in ''PubMed'' (source pubmed_example)
   \<and> fst (add_abstracts_to_papers (\<lambda>ids. [''1'' \<mapsto> the (info_example ''31415926'')]) [pubmed_example])
      = [pubmed_example]
   \<and> merge_and_score [crossref_example] [pubmed_example] ''organic electrochemical transistors'' 3
      = [merge_existing crossref_example pubmed_example]
   \<and> truthy (pmid (merge_existing crossref_example pubmed_example))
   \<and> str_in ''PubMed'' (source (merge_existing crossref_example pubmed_example))
   \<and> requested_pmids (merge_and_score [crossref_example] [pubmed_example]
                        ''organic electrochemical transistors'' 3) = [''31415926'']
   \<and> fst (add_abstracts_to_papers (\<lambda>ids. [''1'' \<mapsto> the (info_example ''31415926'')])
            (merge_and_score [crossref_example] [pubmed_example]
               ''organic electrochemical transistors'' 3))
      = merge_and_score [crossref_example] [pubmed_example] ''organic electrochemical transistors'' 3"
proof -
  let ?f = "fetch_pubmed_abstracts (\<lambda>ids. Some info_example)"
  let ?g = "\<lambda>ids :: string list. [''1'' \<mapsto> the (info_example ''31415926'')]"
  let ?ms = "merge_and_score [crossref_example] [pubmed_example]
               ''organic electrochemical transistors'' 3"
  let ?me = "merge_existing crossref_example pubmed_example"
  have r0: "requested_pmids [crossref_example] = []"
    by (simp add: requested_pmids_def crossref_example_def truthy_def)
  have r1: "requested_pmids [pubmed_example] = [''31415926'']"
    by (simp add: requested_pmids_def pubmed_example_def truthy_def str_or_empty_def
          str_in_def sublist_code prefix_code)
  have ms: "?ms = [?me]" by (rule merge_and_score_example)
  have r2: "requested_pmids ?ms = [''31415926'']"
    by (simp only: merge_and_score_example requested_pmids_merged_example)
  have t1: "truthy (pmid pubmed_example)"
    by (simp add: pubmed_example_def truthy_def)
  have s1: "str_in ''PubMed'' (source pubmed_example)"
    by (simp add: pubmed_example_def str_in_def)
  have ok: "\<forall>p\<in>set [pubmed_example]. pmid_ok p"
    using s1 by (simp add: pmid_ok_def)
  have t2: "truthy (pmid ?me)"
    by (simp add: pmid_merge_existing crossref_example_def pubmed_example_def truthy_def)
  have fc: "\<forall>p\<in>set [crossref_example]. from_crossref p"
    by (simp add: from_crossref_def crossref_example_def)
  have fp: "\<forall>p\<in>set [pubmed_example]. from_pubmed p"
    by (simp add: from_pubmed_def pubmed_example_def)
  have none: "\<forall>i\<in>set (requested_pmids [pubmed_example]). ?g (requested_pmids [pubmed_example]) i = None"
    by (simp add: r1)
  have none2: "\<forall>i\<in>set (requested_pmids ?ms). ?g (requested_pmids ?ms) i = None"
    by (simp add: r2)
  from C6_enrich_best_effort [of "[crossref_example]" ?f "\<lambda>ids. None" "[]" "[]" "[]" 0] r0
  have a: "add_abstracts_to_papers ?f [crossref_example] = ([crossref_example], [])"
    by blast
  from C6_enrich_best_effort
    [of "[pubmed_example]" ?g "\<lambda>ids. None" "[crossref_example]" "[pubmed_example]"
        "''organic electrochemical transistors''" 3]
  have T: "((\<lambda>ids. None) (requested_pmids [pubmed_example]) = None \<longrightarrow>
        fst (add_abstracts_to_papers (fetch_pubmed_abstracts (\<lambda>ids. None)) [pubmed_example])
          = [pubmed_example])"
    and U: "((\<forall>p\<in>set [pubmed_example]. pmid_ok p)
        \<and> (\<forall>i\<in>set (requested_pmids [pubmed_example]). ?g (requested_pmids [pubmed_example]) i = None) \<longrightarrow>
        fst (add_abstracts_to_papers ?g [pubmed_example]) = [pubmed_example])"
    and V: "((\<forall>p\<in>set [crossref_example]. from_crossref p) \<and> (\<forall>p\<in>set [pubmed_example]. from_pubmed p) \<longrightarrow>
        (\<forall>p\<in>set ?ms. pmid_ok p))"
    and W: "((\<forall>p\<in>set [crossref_example]. from_crossref p) \<and> (\<forall>p\<in>set [pubmed_example]. from_pubmed p)
        \<and> (\<forall>i\<in>set (requested_pmids ?ms). ?g (requested_pmids ?ms) i = None) \<longrightarrow>
        fst (add_abstracts_to_papers ?g ?ms) = ?ms)"
    by blast+
  from T have b: "fst (add_abstracts_to_papers (fetch_pubmed_abstracts (\<lambda>ids. None)) [pubmed_example])
      = [pubmed_example]" by simp
  from U ok none have c: "fst (add_abstracts_to_papers ?g [pubmed_example]) = [pubmed_example]"
    by blast
  from V fc fp have "\<forall>p\<in>set ?ms. pmid_ok p"
    by blast
  then have "pmid_ok ?me" by (simp only: ms) simp
  with t2 have d: "str_in ''PubMed'' (source ?me)" by (simp only: pmid_ok_def)
  from W fc fp none2 have e: "fst (add_abstracts_to_papers ?g ?ms) = ?ms"
    by blast
  from r0 a r1 b t1 s1 c ms t2 d r2 e show ?thesis by blast
qed

end
